theory Spec2Isabelle
  imports Complex_Main
begin

section \<open>The deblending task of obs\_subaru: \<^verbatim>\<open>python/lsst/meas/deblender/deblend.py\<close>\<close>

text \<open>
  The development embeds \<^verbatim>\<open>SourceDeblendConfig\<close> and \<^verbatim>\<open>SourceDeblendTask\<close>.
  The pixel-level routine \<^verbatim>\<open>lsst.meas.deblender.baseline.deblend\<close>, the PSF, the image
  statistics and the source catalogue are libraries outside the repository; they are
  modelled by their interface only, as far as \<^verbatim>\<open>deblend.py\<close> uses it.
  Python floats are idealised as real numbers.
\<close>

subsection \<open>Data\<close>

type_synonym point = "real \<times> real"

text \<open>A peak of a footprint (\<^verbatim>\<open>getIx\<close>, \<^verbatim>\<open>getIy\<close>).\<close>

record peak =
  getIx :: int
  getIy :: int

record box2i =
  getMinX :: int
  getMinY :: int
  getWidth :: int
  getHeight :: int

text \<open>
  A footprint, as far as the task reads it: its peaks and its bounding box. A heavy
  footprint (the flux portion of a child) is a footprint as well.
\<close>

record footprint =
  getPeaks :: "peak list"
  getBBox :: box2i

record shape =
  getDeterminantRadius :: real

text \<open>
  \<^verbatim>\<open>Psf.computeShape\<close> takes an optional position; \<open>None\<close> is the call without a
  position, which evaluates the PSF at its own default position.
\<close>

record psf =
  computeShape :: "point option \<Rightarrow> shape"

text \<open>
  Of the masked image only the result of
  \<^verbatim>\<open>afwMath.makeStatistics(mi.getVariance(), mi.getMask(), afwMath.MEDIAN).getValue(afwMath.MEDIAN)\<close>
  matters to the task.
\<close>

record maskedImage =
  varianceMedian :: real

record exposure =
  getMaskedImage :: maskedImage

datatype edge_choice = Clip | Ramp | Noclip

datatype stray_choice = Necessary | Always | Never

text \<open>\<^verbatim>\<open>SourceDeblendConfig\<close>, lines 35 to 79.\<close>

record config =
  edgeHandling :: edge_choice
  strayFluxToPointSources :: stray_choice
  findStrayFlux :: bool
  assignStrayFlux :: bool
  clipStrayFluxFraction :: real
  psfChisq1 :: real
  psfChisq2 :: real
  psfChisq2b :: real
  maxNumberOfPeaks :: int
  tinyFootprintSize :: int

definition default_config :: config where
  "default_config =
     \<lparr>edgeHandling = Ramp, strayFluxToPointSources = Necessary, findStrayFlux = True,
      assignStrayFlux = True, clipStrayFluxFraction = 0.001, psfChisq1 = 1.5,
      psfChisq2 = 1.5, psfChisq2b = 1.5, maxNumberOfPeaks = 0, tinyFootprintSize = 2\<rparr>"

text \<open>The arguments of the call of the external routine, lines 190 to 204.\<close>

record deblend_args =
  arg_fp :: footprint
  arg_mi :: maskedImage
  arg_psf :: psf
  arg_psf_fwhm :: real
  arg_sigma1 :: real
  arg_psfChisqCut1 :: real
  arg_psfChisqCut2 :: real
  arg_psfChisqCut2b :: real
  arg_maxNumberOfPeaks :: int
  arg_strayFluxToPointSources :: stray_choice
  arg_assignStrayFlux :: bool
  arg_findStrayFlux :: bool
  arg_rampFluxAtEdge :: bool
  arg_patchEdges :: bool
  arg_tinyFootprintSize :: int
  arg_clipStrayFluxFraction :: real

text \<open>
  One per-peak outcome of the external routine, with the attributes the task reads.
  \<open>psfFitCenter\<close> and \<open>psfFitFlux\<close> are read only when \<open>deblendedAsPsf\<close> holds.
\<close>

record perPeak =
  skip :: bool
  getFluxPortion :: "footprint option"
  deblendedAsPsf :: bool
  strayFlux :: "footprint list option"
  psfFitCenter :: point
  psfFitFlux :: real
  hasRampedTemplate :: bool
  patched :: bool

record perFootprint =
  peaks :: "perPeak list"

text \<open>
  The external routine: \<open>Inl msg\<close> is a raised \<^verbatim>\<open>Exception\<close> (what line 206 catches),
  \<open>Inr res\<close> a returned result.
\<close>

type_synonym deblender = "deblend_args \<Rightarrow> string + perFootprint"

text \<open>
  A row of the catalogue. The fields registered in \<^verbatim>\<open>__init__\<close> (lines 97 to 126) carry
  the names of their keys; \<open>None\<close> is a field that was never written (it reads as the
  schema's default: 0 or false).
\<close>

record source =
  getId :: int
  getParent :: int
  getFootprint :: "footprint option"
  nChildKey :: "int option"
  psfKey :: "bool option"
  psfCenterKey :: "point option"
  psfFluxKey :: "real option"
  tooManyPeaksKey :: "bool option"
  deblendFailedKey :: "bool option"
  deblendSkippedKey :: "bool option"
  deblendRampedTemplateKey :: "bool option"
  deblendPatchedTemplateKey :: "bool option"
  hasStrayFluxKey :: "bool option"

text \<open>
  What the task does besides writing the catalogue: the calls of its two hooks, the calls
  of the external routine, the warning of line 207 and the summary of line 251.
\<close>

datatype event =
    PreHook nat real
  | Dispatch deblend_args
  | Warn int string
  | PostHook nat nat "nat list"
  | Summary int int int int

text \<open>Exceptions that leave \<^verbatim>\<open>deblend\<close>.\<close>

datatype error = AttributeError | IndexError | ValueError

text \<open>
  The catalogue \<open>srcs\<close> with the next identifier of its table, the trace of events, and
  the counter \<open>nparents\<close> of the loop.
\<close>

record run_state =
  srcs :: "source list"
  idFactory :: int
  events :: "event list"
  nparents :: int

type_synonym outcome = "(error \<times> run_state) + run_state"

text \<open>
  The catalogue class is \<^verbatim>\<open>lsst.afw.table.SourceCatalog\<close>. What its iterator does when
  rows are appended during \<^verbatim>\<open>for i,src in enumerate(srcs)\<close> is decided there, not in
  \<^verbatim>\<open>deblend.py\<close>: \<open>Snapshot\<close> is an iterator that fixes the number of rows when the loop
  starts, \<open>Live\<close> one that compares its position with the current number of rows at every
  step (as the iterator of a Python list does).
\<close>

datatype iteration = Snapshot | Live

subsection \<open>Operations\<close>

definition emit :: "event \<Rightarrow> run_state \<Rightarrow> run_state" where
  "emit e st = st\<lparr>events := events st @ [e]\<rparr>"

text \<open>\<^verbatim>\<open>src.set(key, v)\<close> on the row at position \<open>i\<close>, with the write given as a function.\<close>

definition set_src :: "nat \<Rightarrow> (source \<Rightarrow> source) \<Rightarrow> run_state \<Rightarrow> run_state" where
  "set_src i f st = st\<lparr>srcs := (srcs st)[i := f (srcs st ! i)]\<rparr>"

text \<open>\<^verbatim>\<open>srcs.addNew()\<close>: a fresh row with every field at its default, appended.\<close>

definition new_record :: "int \<Rightarrow> source" where
  "new_record ident =
     \<lparr>getId = ident, getParent = 0, getFootprint = None, nChildKey = None, psfKey = None,
      psfCenterKey = None, psfFluxKey = None, tooManyPeaksKey = None,
      deblendFailedKey = None, deblendSkippedKey = None, deblendRampedTemplateKey = None,
      deblendPatchedTemplateKey = None, hasStrayFluxKey = None\<rparr>"

definition addNew :: "run_state \<Rightarrow> run_state \<times> nat" where
  "addNew st =
     (st\<lparr>srcs := srcs st @ [new_record (idFactory st)], idFactory := idFactory st + 1\<rparr>,
      length (srcs st))"

text \<open>Line 146. The bounding box is a parameter and is not used.\<close>

definition getPsfFwhm :: "psf \<Rightarrow> box2i \<Rightarrow> real" where
  "getPsfFwhm p bbox = getDeterminantRadius (computeShape p None) * 2.35"

text \<open>
  The hooks of the base class do nothing (lines 254 to 258); the model records that they
  were called, with the position \<open>i\<close> they receive.
\<close>

definition preSingleDeblendHook ::
  "exposure \<Rightarrow> nat \<Rightarrow> footprint \<Rightarrow> psf \<Rightarrow> real \<Rightarrow> real \<Rightarrow> run_state \<Rightarrow> run_state" where
  "preSingleDeblendHook exposure i fp p psf_fwhm sigma1 st = emit (PreHook i psf_fwhm) st"

definition postSingleDeblendHook ::
  "exposure \<Rightarrow> nat \<Rightarrow> nat \<Rightarrow> nat list \<Rightarrow> footprint \<Rightarrow> psf \<Rightarrow> real \<Rightarrow> real \<Rightarrow> perFootprint
     \<Rightarrow> run_state \<Rightarrow> run_state" where
  "postSingleDeblendHook exposure i npre kids fp p psf_fwhm sigma1 res st =
     emit (PostHook i npre kids) st"

definition call_args ::
  "config \<Rightarrow> footprint \<Rightarrow> maskedImage \<Rightarrow> psf \<Rightarrow> real \<Rightarrow> real \<Rightarrow> deblend_args" where
  "call_args cfg fp mi p psf_fwhm sigma1 =
     \<lparr>arg_fp = fp, arg_mi = mi, arg_psf = p, arg_psf_fwhm = psf_fwhm, arg_sigma1 = sigma1,
      arg_psfChisqCut1 = psfChisq1 cfg, arg_psfChisqCut2 = psfChisq2 cfg,
      arg_psfChisqCut2b = psfChisq2b cfg, arg_maxNumberOfPeaks = maxNumberOfPeaks cfg,
      arg_strayFluxToPointSources = strayFluxToPointSources cfg,
      arg_assignStrayFlux = assignStrayFlux cfg,
      arg_findStrayFlux = (assignStrayFlux cfg \<or> findStrayFlux cfg),
      arg_rampFluxAtEdge = (edgeHandling cfg = Ramp),
      arg_patchEdges = (edgeHandling cfg = Noclip),
      arg_tinyFootprintSize = tinyFootprintSize cfg,
      arg_clipStrayFluxFraction = clipStrayFluxFraction cfg\<rparr>"

text \<open>The writes to a new child, lines 234 to 243.\<close>

definition fill_child :: "int \<Rightarrow> footprint \<Rightarrow> perPeak \<Rightarrow> source \<Rightarrow> source" where
  "fill_child parent_id heavy pk child =
     (let child = child\<lparr>getParent := parent_id\<rparr>;
          child = child\<lparr>getFootprint := Some heavy\<rparr>;
          child = child\<lparr>psfKey := Some (deblendedAsPsf pk)\<rparr>;
          child = child\<lparr>hasStrayFluxKey := Some (strayFlux pk \<noteq> None)\<rparr>;
          child = (if deblendedAsPsf pk
                   then (case psfFitCenter pk of (cx, cy) \<Rightarrow>
                           child\<lparr>psfCenterKey := Some (cx, cy),
                                 psfFluxKey := Some (psfFitFlux pk)\<rparr>)
                   else child);
          child = child\<lparr>deblendRampedTemplateKey := Some (hasRampedTemplate pk)\<rparr>
      in child\<lparr>deblendPatchedTemplateKey := Some (patched pk)\<rparr>)"

text \<open>
  The loop over \<^verbatim>\<open>res.peaks\<close>, lines 215 to 244, for the parent at position \<open>i\<close> with peaks
  \<open>pks\<close>; \<open>j\<close> is the index of the outcome at the head of the list. The two debug messages
  read \<^verbatim>\<open>pks[j]\<close> before the flag is written, which raises \<^verbatim>\<open>IndexError\<close> outside the
  \<^verbatim>\<open>try\<close> when the result has more outcomes than the footprint has peaks.
\<close>

fun map_peaks ::
  "nat \<Rightarrow> peak list \<Rightarrow> nat \<Rightarrow> perPeak list \<Rightarrow> run_state \<times> nat list \<times> int
     \<Rightarrow> (error \<times> run_state) + (run_state \<times> nat list \<times> int)" where
  "map_peaks i pks j [] acc = Inr acc"
| "map_peaks i pks j (pk # rest) (st, kids, nchild) =
     (if skip pk then
        (if length pks \<le> j then Inl (IndexError, st)
         else map_peaks i pks (Suc j) rest
                (set_src i (\<lambda>s. s\<lparr>deblendSkippedKey := Some True\<rparr>) st, kids, nchild))
      else
        (case getFluxPortion pk of
           None \<Rightarrow>
             (if length pks \<le> j then Inl (IndexError, st)
              else map_peaks i pks (Suc j) rest
                     (set_src i (\<lambda>s. s\<lparr>deblendSkippedKey := Some True\<rparr>) st, kids, nchild))
         | Some heavy \<Rightarrow>
             (let st = set_src i (\<lambda>s. s\<lparr>deblendSkippedKey := Some False\<rparr>) st;
                  (st, child) = addNew st;
                  nchild = nchild + 1;
                  st = set_src child (fill_child (getId (srcs st ! i)) heavy pk) st
              in map_peaks i pks (Suc j) rest (st, kids @ [child], nchild))))"

text \<open>
  The body of the loop over the catalogue, lines 173 to 248, for position \<open>i\<close>. The
  iterator reads row \<open>i\<close>; a source without footprint makes \<^verbatim>\<open>fp.getPeaks()\<close> fail.
\<close>

definition process_source ::
  "deblender \<Rightarrow> config \<Rightarrow> exposure \<Rightarrow> psf \<Rightarrow> maskedImage \<Rightarrow> real \<Rightarrow> nat \<Rightarrow> run_state \<Rightarrow> outcome"
  where
  "process_source ext cfg exposure p mi sigma1 i st =
     (if length (srcs st) \<le> i then Inl (IndexError, st)
      else
        (case getFootprint (srcs st ! i) of
           None \<Rightarrow> Inl (AttributeError, st)
         | Some fp \<Rightarrow>
             (let pks = getPeaks fp in
              if length pks < 2 then Inr st
              else
                (let st = st\<lparr>nparents := nparents st + 1\<rparr>;
                     bb = getBBox fp;
                     psf_fwhm = getPsfFwhm p bb;
                     st = preSingleDeblendHook exposure i fp p psf_fwhm sigma1 st;
                     npre = length (srcs st);
                     st = set_src i (\<lambda>s. s\<lparr>tooManyPeaksKey :=
                            Some (int (length (getPeaks fp)) > maxNumberOfPeaks cfg)\<rparr>) st;
                     args = call_args cfg fp mi p psf_fwhm sigma1;
                     st = emit (Dispatch args) st
                 in case ext args of
                      Inl e \<Rightarrow>
                        Inr (set_src i (\<lambda>s. s\<lparr>deblendFailedKey := Some True\<rparr>)
                               (emit (Warn (getId (srcs st ! i)) e) st))
                    | Inr res \<Rightarrow>
                        (let st = set_src i (\<lambda>s. s\<lparr>deblendFailedKey := Some False\<rparr>) st
                         in case map_peaks i pks 0 (peaks res) (st, [], 0) of
                              Inl err \<Rightarrow> Inl err
                            | Inr (st, kids, nchild) \<Rightarrow>
                                (let st = set_src i (\<lambda>s. s\<lparr>nChildKey := Some nchild\<rparr>) st
                                 in Inr (postSingleDeblendHook exposure i npre kids fp p
                                           psf_fwhm sigma1 res st)))))))"

text \<open>
  The loop of line 172 from position \<open>i\<close>; \<open>n\<close> is the number of rows the iterator saw
  when the loop started. \<open>None\<close> is a loop that does not end.
\<close>

partial_function (option) deblend_loop ::
  "iteration \<Rightarrow> deblender \<Rightarrow> config \<Rightarrow> exposure \<Rightarrow> psf \<Rightarrow> maskedImage \<Rightarrow> real \<Rightarrow> nat \<Rightarrow> nat
     \<Rightarrow> run_state \<Rightarrow> outcome option" where
  "deblend_loop it ext cfg exposure p mi sigma1 n i st =
     (if i < (case it of Snapshot \<Rightarrow> n | Live \<Rightarrow> length (srcs st)) then
        (case process_source ext cfg exposure p mi sigma1 i st of
           Inl err \<Rightarrow> Some (Inl err)
         | Inr st' \<Rightarrow> deblend_loop it ext cfg exposure p mi sigma1 n (Suc i) st')
      else Some (Inr st))"

text \<open>
  \<^verbatim>\<open>deblend\<close>, lines 149 to 252. \<^verbatim>\<open>math.sqrt\<close> raises \<^verbatim>\<open>ValueError\<close> on a negative
  number. \<open>n0\<close> is the variable of line 170; it is read again only by the summary.
\<close>

definition deblend ::
  "iteration \<Rightarrow> deblender \<Rightarrow> config \<Rightarrow> exposure \<Rightarrow> run_state \<Rightarrow> psf \<Rightarrow> outcome option" where
  "deblend it ext cfg exposure st p =
     (let mi = getMaskedImage exposure in
      if varianceMedian mi < 0 then Some (Inl (ValueError, st))
      else
        (let sigma1 = sqrt (varianceMedian mi);
             n0 = int (length (srcs st));
             st = st\<lparr>nparents := 0\<rparr>
         in case deblend_loop it ext cfg exposure p mi sigma1 (length (srcs st)) 0 st of
              None \<Rightarrow> None
            | Some (Inl err) \<Rightarrow> Some (Inl err)
            | Some (Inr st) \<Rightarrow>
                (let n1 = int (length (srcs st))
                 in Some (Inr (emit (Summary n0 (nparents st) (n1 - n0) n1) st)))))"

text \<open>\<^verbatim>\<open>run\<close>, line 141.\<close>

definition run ::
  "iteration \<Rightarrow> deblender \<Rightarrow> config \<Rightarrow> exposure \<Rightarrow> run_state \<Rightarrow> psf \<Rightarrow> outcome option" where
  "run it ext cfg exposure sources p = deblend it ext cfg exposure sources p"

subsection \<open>Notions used to state the properties\<close>

text \<open>The arguments of the call for a footprint, and the state when the call is made.\<close>

definition dispatch_args :: "config \<Rightarrow> psf \<Rightarrow> maskedImage \<Rightarrow> real \<Rightarrow> footprint \<Rightarrow> deblend_args" where
  "dispatch_args cfg p mi sigma1 fp = call_args cfg fp mi p (getPsfFwhm p (getBBox fp)) sigma1"

definition before_dispatch ::
  "config \<Rightarrow> psf \<Rightarrow> maskedImage \<Rightarrow> real \<Rightarrow> nat \<Rightarrow> footprint \<Rightarrow> run_state \<Rightarrow> run_state" where
  "before_dispatch cfg p mi sigma1 i fp st =
     emit (Dispatch (dispatch_args cfg p mi sigma1 fp))
       (set_src i (\<lambda>s. s\<lparr>tooManyPeaksKey :=
                     Some (int (length (getPeaks fp)) > maxNumberOfPeaks cfg)\<rparr>)
          (emit (PreHook i (getPsfFwhm p (getBBox fp))) (st\<lparr>nparents := nparents st + 1\<rparr>)))"

definition kept :: "perPeak \<Rightarrow> bool" where
  "kept pk = (\<not> skip pk \<and> getFluxPortion pk \<noteq> None)"

definition state_of :: "outcome \<Rightarrow> run_state" where
  "state_of r = (case r of Inl (e, st) \<Rightarrow> st | Inr st \<Rightarrow> st)"

definition mapped_state ::
  "(error \<times> run_state) + (run_state \<times> nat list \<times> int) \<Rightarrow> run_state" where
  "mapped_state r = (case r of Inl (e, st) \<Rightarrow> st | Inr (st, kids, nchild) \<Rightarrow> st)"

definition append_child :: "nat \<Rightarrow> footprint \<Rightarrow> perPeak \<Rightarrow> run_state \<Rightarrow> run_state" where
  "append_child i heavy pk st =
     (let st = set_src i (\<lambda>s. s\<lparr>deblendSkippedKey := Some False\<rparr>) st;
          (st, child) = addNew st
      in set_src child (fill_child (getId (srcs st ! i)) heavy pk) st)"

definition psf_fields_ok :: "source \<Rightarrow> bool" where
  "psf_fields_ok c =
     ((psfCenterKey c \<noteq> None) = (psfKey c = Some True) \<and>
      (psfFluxKey c \<noteq> None) = (psfKey c = Some True))"

text \<open>The positions passed to the two hooks, and the widths passed to the external routine.\<close>

fun pre_hooked :: "event list \<Rightarrow> nat list" where
  "pre_hooked [] = []"
| "pre_hooked (PreHook i w # es) = i # pre_hooked es"
| "pre_hooked (e # es) = pre_hooked es"

fun post_hooked :: "event list \<Rightarrow> nat list" where
  "post_hooked [] = []"
| "post_hooked (PostHook i npre kids # es) = i # post_hooked es"
| "post_hooked (e # es) = post_hooked es"

fun dispatched_widths :: "event list \<Rightarrow> real list" where
  "dispatched_widths [] = []"
| "dispatched_widths (Dispatch args # es) = arg_psf_fwhm args # dispatched_widths es"
| "dispatched_widths (e # es) = dispatched_widths es"

text \<open>
  The width as the specification words it: 2.35 times the determinant radius of the PSF
  shape queried at the bounding box of the footprint (at its centre). It is compared with
  \<open>getPsfFwhm\<close>, which is what the task computes.
\<close>

definition bbox_center :: "box2i \<Rightarrow> point" where
  "bbox_center bb =
     (real_of_int (getMinX bb) + (real_of_int (getWidth bb) - 1) / 2,
      real_of_int (getMinY bb) + (real_of_int (getHeight bb) - 1) / 2)"

definition spec_psf_width :: "psf \<Rightarrow> box2i \<Rightarrow> real" where
  "spec_psf_width p bbox = getDeterminantRadius (computeShape p (Some (bbox_center bbox))) * 2.35"

text \<open>The catalogue with the row at position \<open>i\<close> blanked out, and the identifier counter.\<close>

definition others :: "nat \<Rightarrow> run_state \<Rightarrow> source list \<times> int" where
  "others i st = ((srcs st)[i := new_record 0], idFactory st)"

text \<open>Whether a run or an iteration ended without an exception.\<close>

definition completed :: "outcome \<Rightarrow> bool" where
  "completed r = (case r of Inl err \<Rightarrow> False | Inr st \<Rightarrow> True)"

text \<open>Two states that agree on every row but the one at position \<open>i\<close>.\<close>

definition agree_except :: "nat \<Rightarrow> run_state \<Rightarrow> run_state \<Rightarrow> bool" where
  "agree_except i s s' = (others i s = others i s')"

text \<open>Whether the row at position \<open>i\<close> is a candidate: it has a footprint with two peaks or more.\<close>

definition is_candidate :: "run_state \<Rightarrow> nat \<Rightarrow> bool" where
  "is_candidate st i =
     (i < length (srcs st) \<and>
      (case getFootprint (srcs st ! i) of None \<Rightarrow> False | Some fp \<Rightarrow> 2 \<le> length (getPeaks fp)))"

text \<open>
  The pass as the specification words it: the body of the loop at each of a given list
  of positions, in order, stopping at the first exception. It is compared with
  \<open>deblend_loop\<close>.
\<close>

fun process_rows ::
  "deblender \<Rightarrow> config \<Rightarrow> exposure \<Rightarrow> psf \<Rightarrow> maskedImage \<Rightarrow> real \<Rightarrow> nat list \<Rightarrow> run_state
     \<Rightarrow> outcome" where
  "process_rows ext cfg exposure p mi sigma1 [] st = Inr st"
| "process_rows ext cfg exposure p mi sigma1 (i # rest) st =
     (case process_source ext cfg exposure p mi sigma1 i st of
        Inl err \<Rightarrow> Inl err
      | Inr st' \<Rightarrow> process_rows ext cfg exposure p mi sigma1 rest st')"

text \<open>
  A run that visits exactly the rows present at the call, by position, and then logs the
  summary: what \<open>deblend\<close> is compared with.
\<close>

definition single_pass :: "deblender \<Rightarrow> config \<Rightarrow> exposure \<Rightarrow> run_state \<Rightarrow> psf \<Rightarrow> outcome" where
  "single_pass ext cfg exposure st p =
     (let mi = getMaskedImage exposure; n0 = int (length (srcs st))
      in case process_rows ext cfg exposure p mi (sqrt (varianceMedian mi))
                [0..<length (srcs st)] (st\<lparr>nparents := 0\<rparr>) of
           Inl err \<Rightarrow> Inl err
         | Inr st' \<Rightarrow>
             Inr (emit (Summary n0 (nparents st') (int (length (srcs st')) - n0)
                          (int (length (srcs st')))) st'))"

text \<open>Whether a row has a footprint with fewer than two peaks.\<close>

definition small_row :: "source \<Rightarrow> bool" where
  "small_row c = (case getFootprint c of None \<Rightarrow> False | Some fp \<Rightarrow> length (getPeaks fp) < 2)"

subsection \<open>A small catalogue\<close>

text \<open>
  Three detections: one with two peaks on which the routine raises, one with a single
  peak, and one with three peaks that the routine splits into a point source whose flux
  portion has two peaks, a skipped peak, and an extended child.
\<close>

definition ex_fp1 :: footprint where
  "ex_fp1 = \<lparr>getPeaks = [\<lparr>getIx = 30, getIy = 31\<rparr>],
             getBBox = \<lparr>getMinX = 28, getMinY = 29, getWidth = 5, getHeight = 5\<rparr>\<rparr>"

definition ex_fp2 :: footprint where
  "ex_fp2 = \<lparr>getPeaks = [\<lparr>getIx = 3, getIy = 4\<rparr>, \<lparr>getIx = 7, getIy = 4\<rparr>],
             getBBox = \<lparr>getMinX = 0, getMinY = 0, getWidth = 11, getHeight = 9\<rparr>\<rparr>"

definition ex_fp3 :: footprint where
  "ex_fp3 = \<lparr>getPeaks = [\<lparr>getIx = 52, getIy = 60\<rparr>, \<lparr>getIx = 55, getIy = 61\<rparr>,
                         \<lparr>getIx = 58, getIy = 66\<rparr>],
             getBBox = \<lparr>getMinX = 50, getMinY = 58, getWidth = 13, getHeight = 11\<rparr>\<rparr>"

definition ex_result :: perFootprint where
  "ex_result = \<lparr>peaks =
     [\<lparr>skip = False, getFluxPortion = Some ex_fp2, deblendedAsPsf = True, strayFlux = None,
       psfFitCenter = (52.5, 60.25), psfFitFlux = 1200, hasRampedTemplate = False,
       patched = False\<rparr>,
      \<lparr>skip = True, getFluxPortion = None, deblendedAsPsf = False, strayFlux = None,
       psfFitCenter = (0, 0), psfFitFlux = 0, hasRampedTemplate = False, patched = False\<rparr>,
      \<lparr>skip = False, getFluxPortion = Some ex_fp1, deblendedAsPsf = False,
       strayFlux = Some [ex_fp1], psfFitCenter = (0, 0), psfFitFlux = 0,
       hasRampedTemplate = True, patched = False\<rparr>]\<rparr>"

definition ex_deblend :: deblender where
  "ex_deblend args =
     (if length (getPeaks (arg_fp args)) = 3 then Inr ex_result else Inl ''no template'')"

text \<open>The same routine with a one-peak flux portion for the point source.\<close>

definition ex_result1 :: perFootprint where
  "ex_result1 = \<lparr>peaks =
     [\<lparr>skip = False, getFluxPortion = Some ex_fp1, deblendedAsPsf = True, strayFlux = None,
       psfFitCenter = (52.5, 60.25), psfFitFlux = 1200, hasRampedTemplate = False,
       patched = False\<rparr>,
      \<lparr>skip = True, getFluxPortion = None, deblendedAsPsf = False, strayFlux = None,
       psfFitCenter = (0, 0), psfFitFlux = 0, hasRampedTemplate = False, patched = False\<rparr>,
      \<lparr>skip = False, getFluxPortion = Some ex_fp1, deblendedAsPsf = False,
       strayFlux = Some [ex_fp1], psfFitCenter = (0, 0), psfFitFlux = 0,
       hasRampedTemplate = True, patched = False\<rparr>]\<rparr>"

definition ex_deblend1 :: deblender where
  "ex_deblend1 args =
     (if length (getPeaks (arg_fp args)) = 3 then Inr ex_result1 else Inl ''no template'')"

definition ex_catalogue :: run_state where
  "ex_catalogue =
     \<lparr>srcs = [(new_record 1)\<lparr>getFootprint := Some ex_fp2\<rparr>,
              (new_record 2)\<lparr>getFootprint := Some ex_fp1\<rparr>,
              (new_record 3)\<lparr>getFootprint := Some ex_fp3\<rparr>],
      idFactory = 4, events = [], nparents = 0\<rparr>"

definition ex_mi :: maskedImage where
  "ex_mi = \<lparr>varianceMedian = 4\<rparr>"

definition ex_exposure :: exposure where
  "ex_exposure = \<lparr>getMaskedImage = ex_mi\<rparr>"

text \<open>A PSF whose shape has radius 2 at its default position and radius 3 elsewhere.\<close>

definition ex_psf :: psf where
  "ex_psf = \<lparr>computeShape =
     (\<lambda>pos. case pos of None \<Rightarrow> \<lparr>getDeterminantRadius = 2\<rparr>
                      | Some q \<Rightarrow> \<lparr>getDeterminantRadius = 3\<rparr>)\<rparr>"

section \<open>Properties\<close>

subsection \<open>State operations\<close>

lemma srcs_emit [simp]: "srcs (emit e st) = srcs st"
  and idFactory_emit [simp]: "idFactory (emit e st) = idFactory st"
  and nparents_emit [simp]: "nparents (emit e st) = nparents st"
  and events_emit [simp]: "events (emit e st) = events st @ [e]"
  by (simp_all add: emit_def)

lemma srcs_set_src [simp]: "srcs (set_src i f st) = (srcs st)[i := f (srcs st ! i)]"
  and idFactory_set_src [simp]: "idFactory (set_src i f st) = idFactory st"
  and nparents_set_src [simp]: "nparents (set_src i f st) = nparents st"
  and events_set_src [simp]: "events (set_src i f st) = events st"
  by (simp_all add: set_src_def)

lemma process_source_small:
  assumes "i < length (srcs st)" "getFootprint (srcs st ! i) = Some fp" "length (getPeaks fp) < 2"
  shows "process_source ext cfg exposure p mi sigma1 i st = Inr st"
  using assms by (simp add: process_source_def)

lemma process_source_candidate:
  assumes "i < length (srcs st)" "getFootprint (srcs st ! i) = Some fp" "2 \<le> length (getPeaks fp)"
  shows "process_source ext cfg exposure p mi sigma1 i st =
     (let st1 = before_dispatch cfg p mi sigma1 i fp st in
      case ext (dispatch_args cfg p mi sigma1 fp) of
        Inl e \<Rightarrow> Inr (set_src i (\<lambda>s. s\<lparr>deblendFailedKey := Some True\<rparr>)
                       (emit (Warn (getId (srcs st ! i)) e) st1))
      | Inr res \<Rightarrow>
          (case map_peaks i (getPeaks fp) 0 (peaks res)
                  (set_src i (\<lambda>s. s\<lparr>deblendFailedKey := Some False\<rparr>) st1, [], 0) of
             Inl err \<Rightarrow> Inl err
           | Inr (st2, kids, nchild) \<Rightarrow>
               Inr (emit (PostHook i (length (srcs st)) kids)
                      (set_src i (\<lambda>s. s\<lparr>nChildKey := Some nchild\<rparr>) st2))))"
  using assms
  by (simp add: process_source_def Let_def before_dispatch_def dispatch_args_def
      preSingleDeblendHook_def postSingleDeblendHook_def split: sum.split prod.split)

lemma before_dispatch_sel [simp]:
  "srcs (before_dispatch cfg p mi sigma1 i fp st) =
     (srcs st)[i := (srcs st ! i)\<lparr>tooManyPeaksKey :=
        Some (int (length (getPeaks fp)) > maxNumberOfPeaks cfg)\<rparr>]"
  "events (before_dispatch cfg p mi sigma1 i fp st) =
     events st @ [PreHook i (getPsfFwhm p (getBBox fp)), Dispatch (dispatch_args cfg p mi sigma1 fp)]"
  "idFactory (before_dispatch cfg p mi sigma1 i fp st) = idFactory st"
  "nparents (before_dispatch cfg p mi sigma1 i fp st) = nparents st + 1"
  by (simp_all add: before_dispatch_def)


lemma state_of_simps [simp]: "state_of (Inl (e, st)) = st" "state_of (Inr st) = st"
  by (simp_all add: state_of_def)

lemma mapped_state_simps [simp]:
  "mapped_state (Inl (e, st)) = st" "mapped_state (Inr (st, kids, n)) = st"
  by (simp_all add: mapped_state_def)

lemma append_child_sel:
  "events (append_child i heavy pk st) = events st"
  "nparents (append_child i heavy pk st) = nparents st"
  "idFactory (append_child i heavy pk st) = idFactory st + 1"
  "length (srcs (append_child i heavy pk st)) = Suc (length (srcs st))"
  by (simp_all add: append_child_def addNew_def Let_def)

lemma srcs_append_child:
  assumes "i < length (srcs st)"
  shows "srcs (append_child i heavy pk st) =
     (srcs st)[i := (srcs st ! i)\<lparr>deblendSkippedKey := Some False\<rparr>] @
     [fill_child (getId (srcs st ! i)) heavy pk (new_record (idFactory st))]"
  using assms by (simp add: append_child_def addNew_def Let_def nth_append list_update_append)

lemma map_peaks_Cons:
  "map_peaks i pks j (pk # rest) (st, kids, nchild) =
     (if kept pk then
        map_peaks i pks (Suc j) rest
          (append_child i (the (getFluxPortion pk)) pk st, kids @ [length (srcs st)], nchild + 1)
      else if length pks \<le> j then Inl (IndexError, st)
      else map_peaks i pks (Suc j) rest
             (set_src i (\<lambda>s. s\<lparr>deblendSkippedKey := Some True\<rparr>) st, kids, nchild))"
  by (auto simp add: kept_def append_child_def addNew_def Let_def split: option.splits)

lemma map_peaks_invariant:
  assumes "P st"
    and "\<And>s. P s \<Longrightarrow> P (set_src i (\<lambda>s. s\<lparr>deblendSkippedKey := Some True\<rparr>) s)"
    and "\<And>s heavy pk. P s \<Longrightarrow> P (append_child i heavy pk s)"
  shows "P (mapped_state (map_peaks i pks j ps (st, kids, n)))"
  using assms(1)
proof (induction ps arbitrary: st kids n j)
  case Nil
  then show ?case by simp
next
  case (Cons pk rest)
  show ?case
  proof (cases "kept pk")
    case True
    with Cons.prems have "P (append_child i (the (getFluxPortion pk)) pk st)"
      by (simp add: assms(3))
    from Cons.IH [OF this] True show ?thesis
      by (simp only: map_peaks_Cons if_True)
  next
    case False
    show ?thesis
    proof (cases "length pks \<le> j")
      case True
      with False Cons.prems show ?thesis
        by (simp only: map_peaks_Cons if_True if_False mapped_state_simps)
    next
      case nolimit: False
      from Cons.prems have "P (set_src i (\<lambda>s. s\<lparr>deblendSkippedKey := Some True\<rparr>) st)"
        by (rule assms(2))
      from Cons.IH [OF this] False nolimit show ?thesis
        by (simp only: map_peaks_Cons if_False)
    qed
  qed
qed

lemma map_peaks_events:
  "events (mapped_state (map_peaks i pks j ps (st, kids, n))) = events st \<and>
   nparents (mapped_state (map_peaks i pks j ps (st, kids, n))) = nparents st"
  by (rule map_peaks_invariant) (simp_all add: append_child_sel)

lemma map_peaks_aligned:
  assumes "j + length ps \<le> length pks"
  shows "\<exists>st' kids'. map_peaks i pks j ps (st, kids, n) =
            Inr (st', kids', n + int (length (filter kept ps))) \<and>
          length (srcs st') = length (srcs st) + length (filter kept ps)"
  using assms
proof (induction ps arbitrary: st kids n j)
  case Nil
  then show ?case by simp
next
  case (Cons pk rest)
  from Cons.prems have rest: "Suc j + length rest \<le> length pks" and here: "\<not> length pks \<le> j"
    by simp_all
  show ?case
  proof (cases "kept pk")
    case True
    from Cons.IH [OF rest, of "append_child i (the (getFluxPortion pk)) pk st"
        "kids @ [length (srcs st)]" "n + 1"]
    show ?thesis using True
      by (simp only: map_peaks_Cons if_True) (auto simp add: append_child_sel)
  next
    case False
    from Cons.IH [OF rest, of "set_src i (\<lambda>s. s\<lparr>deblendSkippedKey := Some True\<rparr>) st" kids n]
    show ?thesis using False here
      by (simp only: map_peaks_Cons if_False) auto
  qed
qed


lemma map_peaks_last:
  assumes "i < length (srcs st)"
    and "map_peaks i pks j ps (st, kids, n) = Inr (st', kids', n')"
  shows "deblendSkippedKey (srcs st' ! i) =
     (if ps = [] then deblendSkippedKey (srcs st ! i) else Some (\<not> kept (last ps)))"
  using assms
proof (induction ps arbitrary: st kids n j)
  case Nil
  then show ?case by simp
next
  case (Cons pk rest)
  show ?case
  proof (cases "kept pk")
    case True
    let ?st1 = "append_child i (the (getFluxPortion pk)) pk st"
    from Cons.prems(2) True
    have run: "map_peaks i pks (Suc j) rest (?st1, kids @ [length (srcs st)], n + 1) =
        Inr (st', kids', n')"
      by (simp only: map_peaks_Cons if_True)
    have len: "i < length (srcs ?st1)"
      using Cons.prems(1) by (simp add: append_child_sel)
    have here: "deblendSkippedKey (srcs ?st1 ! i) = Some False"
      using Cons.prems(1) by (simp add: srcs_append_child nth_append)
    from Cons.IH [OF len run] here True show ?thesis by simp
  next
    case False
    let ?st1 = "set_src i (\<lambda>s. s\<lparr>deblendSkippedKey := Some True\<rparr>) st"
    from Cons.prems(2) False
    have run: "map_peaks i pks (Suc j) rest (?st1, kids, n) = Inr (st', kids', n')"
      by (simp only: map_peaks_Cons if_False split: if_splits) simp
    have len: "i < length (srcs ?st1)"
      using Cons.prems(1) by simp
    have here: "deblendSkippedKey (srcs ?st1 ! i) = Some True"
      using Cons.prems(1) by simp
    from Cons.IH [OF len run] here False show ?thesis by simp
  qed
qed

lemma psf_fields_ok_fill_child: "psf_fields_ok (fill_child pid heavy pk (new_record ident))"
  by (simp add: psf_fields_ok_def fill_child_def new_record_def Let_def split: prod.split)

lemma map_peaks_children:
  assumes "i < m" and "m \<le> length (srcs st)"
    and "\<forall>k. m \<le> k \<and> k < length (srcs st) \<longrightarrow> psf_fields_ok (srcs st ! k)"
  shows "\<forall>k. m \<le> k \<and> k < length (srcs (mapped_state (map_peaks i pks j ps (st, kids, n))))
           \<longrightarrow> psf_fields_ok (srcs (mapped_state (map_peaks i pks j ps (st, kids, n))) ! k)"
proof -
  let ?P = "\<lambda>s::run_state. m \<le> length (srcs s) \<and>
              (\<forall>k. m \<le> k \<and> k < length (srcs s) \<longrightarrow> psf_fields_ok (srcs s ! k))"
  have "?P (mapped_state (map_peaks i pks j ps (st, kids, n)))"
  proof (rule map_peaks_invariant [where P = ?P])
    show "?P st" using assms by simp
  next
    fix s assume "?P s"
    then show "?P (set_src i (\<lambda>s. s\<lparr>deblendSkippedKey := Some True\<rparr>) s)"
      using assms(1) by (simp add: nth_list_update)
  next
    fix s heavy pk assume P: "?P s"
    with assms(1) have i: "i < length (srcs s)" by simp
    show "?P (append_child i heavy pk s)"
      using P assms(1) i
      by (auto simp add: srcs_append_child nth_append nth_list_update psf_fields_ok_fill_child)
  qed
  then show ?thesis by simp
qed

lemma map_peaks_frame:
  assumes "i < length (srcs st)"
  shows "length (srcs st) \<le> length (srcs (mapped_state (map_peaks i pks j ps (st, kids, n)))) \<and>
     (\<forall>k < length (srcs st). k \<noteq> i \<longrightarrow>
        srcs (mapped_state (map_peaks i pks j ps (st, kids, n))) ! k = srcs st ! k) \<and>
     (srcs (mapped_state (map_peaks i pks j ps (st, kids, n))) ! i)\<lparr>deblendSkippedKey := None\<rparr> =
        (srcs st ! i)\<lparr>deblendSkippedKey := None\<rparr>"
proof -
  let ?P = "\<lambda>s::run_state. length (srcs st) \<le> length (srcs s) \<and>
     (\<forall>k < length (srcs st). k \<noteq> i \<longrightarrow> srcs s ! k = srcs st ! k) \<and>
     (srcs s ! i)\<lparr>deblendSkippedKey := None\<rparr> = (srcs st ! i)\<lparr>deblendSkippedKey := None\<rparr>"
  show ?thesis
  proof (rule map_peaks_invariant [where P = ?P])
    show "?P st" by simp
  next
    fix s assume P: "?P s"
    with assms have i: "i < length (srcs s)" by simp
    from P have "(srcs s ! i)\<lparr>deblendSkippedKey := None\<rparr> = (srcs st ! i)\<lparr>deblendSkippedKey := None\<rparr>"
      by simp
    then show "?P (set_src i (\<lambda>s. s\<lparr>deblendSkippedKey := Some True\<rparr>) s)"
      using P i by (simp add: nth_list_update)
  next
    fix s heavy pk assume P: "?P s"
    with assms have i: "i < length (srcs s)" by simp
    show "?P (append_child i heavy pk s)"
      using P i assms by (simp add: srcs_append_child nth_append nth_list_update)
  qed
qed

subsection \<open>One iteration of the loop\<close>

lemma pre_hooked_append: "pre_hooked (xs @ ys) = pre_hooked xs @ pre_hooked ys"
  by (induction xs rule: pre_hooked.induct) simp_all

lemma post_hooked_append: "post_hooked (xs @ ys) = post_hooked xs @ post_hooked ys"
  by (induction xs rule: post_hooked.induct) simp_all

lemma dispatched_widths_append:
  "dispatched_widths (xs @ ys) = dispatched_widths xs @ dispatched_widths ys"
  by (induction xs rule: dispatched_widths.induct) simp_all

lemma completed_simps [simp]: "completed (Inl err) = False" "completed (Inr st) = True"
  by (simp_all add: completed_def)

lemma process_source_raise:
  assumes "i < length (srcs st)" "getFootprint (srcs st ! i) = Some fp" "2 \<le> length (getPeaks fp)"
    and "ext (dispatch_args cfg p mi sigma1 fp) = Inl e"
  shows "process_source ext cfg exposure p mi sigma1 i st =
     Inr (st\<lparr>srcs := (srcs st)[i := (srcs st ! i)\<lparr>
                 tooManyPeaksKey := Some (maxNumberOfPeaks cfg < int (length (getPeaks fp))),
                 deblendFailedKey := Some True\<rparr>],
             events := events st @ [PreHook i (getPsfFwhm p (getBBox fp)),
                                    Dispatch (dispatch_args cfg p mi sigma1 fp),
                                    Warn (getId (srcs st ! i)) e],
             nparents := nparents st + 1\<rparr>)"
  using assms
  by (simp add: process_source_candidate [OF assms(1-3)] Let_def before_dispatch_def set_src_def
      emit_def)

lemma process_source_return:
  assumes "i < length (srcs st)" "getFootprint (srcs st ! i) = Some fp" "2 \<le> length (getPeaks fp)"
    and "ext (dispatch_args cfg p mi sigma1 fp) = Inr res"
    and "length (peaks res) \<le> length (getPeaks fp)"
  shows "\<exists>st2 kids.
     map_peaks i (getPeaks fp) 0 (peaks res)
       (set_src i (\<lambda>s. s\<lparr>deblendFailedKey := Some False\<rparr>)
          (before_dispatch cfg p mi sigma1 i fp st), [], 0) =
       Inr (st2, kids, int (length (filter kept (peaks res)))) \<and>
     length (srcs st2) = length (srcs st) + length (filter kept (peaks res)) \<and>
     process_source ext cfg exposure p mi sigma1 i st =
       Inr (emit (PostHook i (length (srcs st)) kids)
              (set_src i (\<lambda>s. s\<lparr>nChildKey := Some (int (length (filter kept (peaks res))))\<rparr>) st2))"
proof -
  let ?st1 = "set_src i (\<lambda>s. s\<lparr>deblendFailedKey := Some False\<rparr>)
                (before_dispatch cfg p mi sigma1 i fp st)"
  from assms(5) have "0 + length (peaks res) \<le> length (getPeaks fp)" by simp
  from map_peaks_aligned [OF this, of i ?st1 "[]" 0]
  obtain st2 kids where
    mp: "map_peaks i (getPeaks fp) 0 (peaks res) (?st1, [], 0) =
           Inr (st2, kids, int (length (filter kept (peaks res))))"
    and len: "length (srcs st2) = length (srcs ?st1) + length (filter kept (peaks res))"
    by auto
  have "process_source ext cfg exposure p mi sigma1 i st =
       Inr (emit (PostHook i (length (srcs st)) kids)
              (set_src i (\<lambda>s. s\<lparr>nChildKey := Some (int (length (filter kept (peaks res))))\<rparr>) st2))"
    by (simp add: process_source_candidate [OF assms(1-3)] Let_def assms(4) mp)
  with mp len show ?thesis by simp
qed

lemma process_source_trace:
  assumes "i < length (srcs st)" "getFootprint (srcs st ! i) = Some fp" "2 \<le> length (getPeaks fp)"
  shows "\<exists>tail. events (state_of (process_source ext cfg exposure p mi sigma1 i st)) =
       events st @ [PreHook i (getPsfFwhm p (getBBox fp)),
                    Dispatch (dispatch_args cfg p mi sigma1 fp)] @ tail \<and>
     (case ext (dispatch_args cfg p mi sigma1 fp) of
        Inl e \<Rightarrow> tail = [Warn (getId (srcs st ! i)) e]
      | Inr res \<Rightarrow>
          (if completed (process_source ext cfg exposure p mi sigma1 i st)
           then \<exists>kids. tail = [PostHook i (length (srcs st)) kids] else tail = []))"
proof (cases "ext (dispatch_args cfg p mi sigma1 fp)")
  case (Inl e)
  then show ?thesis
    by (simp add: process_source_raise [where ext = ext, OF assms Inl])
next
  case (Inr res)
  let ?st1 = "set_src i (\<lambda>s. s\<lparr>deblendFailedKey := Some False\<rparr>)
                (before_dispatch cfg p mi sigma1 i fp st)"
  let ?m = "map_peaks i (getPeaks fp) 0 (peaks res) (?st1, [], 0)"
  have ev: "events (mapped_state ?m) = events ?st1"
    using map_peaks_events [of i "getPeaks fp" 0 "peaks res" ?st1 "[]" 0] by simp
  show ?thesis
  proof (cases ?m)
    case (Inl err)
    then obtain e s where m: "?m = Inl (e, s)" by (cases err) auto
    with ev show ?thesis
      by (simp add: process_source_candidate [OF assms] Let_def Inr)
  next
    case inr: (Inr t)
    then obtain s kids n where m: "?m = Inr (s, kids, n)" by (cases t) auto
    with ev show ?thesis
      by (simp add: process_source_candidate [OF assms] Let_def Inr)
  qed
qed

lemmas ex_defs = ex_fp1_def ex_fp2_def ex_fp3_def ex_result_def ex_deblend_def ex_catalogue_def
  ex_mi_def ex_exposure_def ex_psf_def new_record_def default_config_def

lemmas step_defs = process_source_def Let_def set_src_def emit_def
  preSingleDeblendHook_def postSingleDeblendHook_def call_args_def getPsfFwhm_def addNew_def
  fill_child_def dispatch_args_def

subsection \<open>Child count\<close>

text \<open>
  C3. For a candidate at position \<open>i\<close> on which the external routine returns a result
  (with at most one outcome per peak of the footprint), the iteration ends normally, the
  \<open>nchild\<close> written to the parent is the number of outcomes that are neither skip-flagged
  nor without flux portion, and the catalogue grows by exactly that many rows.
\<close>

theorem nchild_counts_kept_outcomes:
  assumes "i < length (srcs st)" and "getFootprint (srcs st ! i) = Some fp"
    and "2 \<le> length (getPeaks fp)"
    and "ext (dispatch_args cfg p mi sigma1 fp) = Inr res"
    and "length (peaks res) \<le> length (getPeaks fp)"
  shows "completed (process_source ext cfg exposure p mi sigma1 i st) \<and>
     nChildKey (srcs (state_of (process_source ext cfg exposure p mi sigma1 i st)) ! i) =
       Some (int (length (filter (\<lambda>pk. \<not> skip pk \<and> getFluxPortion pk \<noteq> None) (peaks res)))) \<and>
     length (srcs (state_of (process_source ext cfg exposure p mi sigma1 i st))) =
       length (srcs st) +
       length (filter (\<lambda>pk. \<not> skip pk \<and> getFluxPortion pk \<noteq> None) (peaks res))"
proof -
  have k: "(\<lambda>pk. \<not> skip pk \<and> getFluxPortion pk \<noteq> None) = kept"
    by (rule ext) (simp add: kept_def)
  from process_source_return [where ext = ext and exposure = exposure, OF assms] obtain st2 kids where
    len: "length (srcs st2) = length (srcs st) + length (filter kept (peaks res))"
    and run: "process_source ext cfg exposure p mi sigma1 i st =
       Inr (emit (PostHook i (length (srcs st)) kids)
              (set_src i (\<lambda>s. s\<lparr>nChildKey := Some (int (length (filter kept (peaks res))))\<rparr>) st2))"
    by blast
  from len assms(1) have "i < length (srcs st2)" by simp
  with len show ?thesis unfolding k by (simp add: run)
qed

theorem nchild_counts_kept_outcomes_witness:
  "2 < length (srcs ex_catalogue) \<and> getFootprint (srcs ex_catalogue ! 2) = Some ex_fp3 \<and>
   2 \<le> length (getPeaks ex_fp3) \<and>
   ex_deblend (dispatch_args default_config ex_psf ex_mi 2 ex_fp3) = Inr ex_result \<and>
   length (peaks ex_result) \<le> length (getPeaks ex_fp3) \<and>
   completed (process_source ex_deblend default_config ex_exposure ex_psf ex_mi 2 2 ex_catalogue) \<and>
   nChildKey (srcs (state_of
      (process_source ex_deblend default_config ex_exposure ex_psf ex_mi 2 2 ex_catalogue)) ! 2) =
     Some 2 \<and>
   length (srcs (state_of
      (process_source ex_deblend default_config ex_exposure ex_psf ex_mi 2 2 ex_catalogue))) = 5"
proof -
  have h1: "2 < length (srcs ex_catalogue)" by (simp add: ex_catalogue_def)
  have h2: "getFootprint (srcs ex_catalogue ! 2) = Some ex_fp3"
    by (simp add: ex_catalogue_def new_record_def)
  have h3: "2 \<le> length (getPeaks ex_fp3)" by (simp add: ex_fp3_def)
  have h4: "ex_deblend (dispatch_args default_config ex_psf ex_mi 2 ex_fp3) = Inr ex_result"
    by (simp add: ex_deblend_def dispatch_args_def call_args_def ex_fp3_def)
  have h5: "length (peaks ex_result) \<le> length (getPeaks ex_fp3)"
    by (simp add: ex_result_def ex_fp3_def)
  have c: "length (filter (\<lambda>pk. \<not> skip pk \<and> getFluxPortion pk \<noteq> None) (peaks ex_result)) = 2"
    by (simp add: ex_result_def)
  note t = nchild_counts_kept_outcomes [where ext = ex_deblend and exposure = ex_exposure,
      OF h1 h2 h3 h4 h5, unfolded c]
  have n: "length (srcs ex_catalogue) = 3" by (simp add: ex_catalogue_def)
  from t h1 h2 h3 h4 h5 show ?thesis by (simp add: n)
qed

subsection \<open>The too-many-peaks flag\<close>

lemma tooManyPeaks_written:
  assumes "i < length (srcs st)" and "getFootprint (srcs st ! i) = Some fp"
    and "2 \<le> length (getPeaks fp)"
  shows "tooManyPeaksKey (srcs (before_dispatch cfg p mi sigma1 i fp st) ! i) =
     Some (maxNumberOfPeaks cfg < int (length (getPeaks fp)))"
  using assms by simp

text \<open>
  C4. With the default configuration (\<open>maxNumberOfPeaks = 0\<close>, documented as unlimited)
  the first detection of the example catalogue, which has two peaks, is flagged
  \<open>tooManyPeaks\<close>: line 187 compares the number of peaks with the cap and does not treat
  a cap of zero or less as no cap.
\<close>

theorem tooManyPeaks_set_under_unlimited_cap:
  "maxNumberOfPeaks default_config = 0 \<and>
   length (getPeaks ex_fp2) = 2 \<and>
   getFootprint (srcs ex_catalogue ! 0) = Some ex_fp2 \<and>
   tooManyPeaksKey (srcs (state_of
      (process_source ex_deblend default_config ex_exposure ex_psf ex_mi 2 0 ex_catalogue)) ! 0) =
     Some True"
  by (simp add: ex_defs step_defs)

subsection \<open>The skipped flag\<close>

text \<open>
  C5. For a candidate on which the external routine returns a non-empty result (with at
  most one outcome per peak), the iteration ends normally and the parent's
  \<open>deblendSkipped\<close> is the status of the last outcome: true iff that outcome is
  skip-flagged or has no flux portion.
\<close>

theorem deblendSkipped_is_last_outcome:
  assumes "i < length (srcs st)" and "getFootprint (srcs st ! i) = Some fp"
    and "2 \<le> length (getPeaks fp)"
    and "ext (dispatch_args cfg p mi sigma1 fp) = Inr res"
    and "length (peaks res) \<le> length (getPeaks fp)"
    and "peaks res \<noteq> []"
  shows "completed (process_source ext cfg exposure p mi sigma1 i st) \<and>
     deblendSkippedKey (srcs (state_of (process_source ext cfg exposure p mi sigma1 i st)) ! i) =
       Some (skip (last (peaks res)) \<or> getFluxPortion (last (peaks res)) = None)"
proof -
  let ?st1 = "set_src i (\<lambda>s. s\<lparr>deblendFailedKey := Some False\<rparr>)
                (before_dispatch cfg p mi sigma1 i fp st)"
  from process_source_return [where ext = ext and exposure = exposure, OF assms(1-5)]
  obtain st2 kids where
    mp: "map_peaks i (getPeaks fp) 0 (peaks res) (?st1, [], 0) =
           Inr (st2, kids, int (length (filter kept (peaks res))))"
    and len: "length (srcs st2) = length (srcs st) + length (filter kept (peaks res))"
    and run: "process_source ext cfg exposure p mi sigma1 i st =
       Inr (emit (PostHook i (length (srcs st)) kids)
              (set_src i (\<lambda>s. s\<lparr>nChildKey := Some (int (length (filter kept (peaks res))))\<rparr>) st2))"
    by blast
  have "i < length (srcs ?st1)" using assms(1) by simp
  from map_peaks_last [OF this mp] assms(6)
  have "deblendSkippedKey (srcs st2 ! i) = Some (\<not> kept (last (peaks res)))" by simp
  moreover from len assms(1) have "i < length (srcs st2)" by simp
  ultimately show ?thesis by (simp add: run kept_def)
qed

theorem deblendSkipped_is_last_outcome_witness:
  "2 < length (srcs ex_catalogue) \<and> getFootprint (srcs ex_catalogue ! 2) = Some ex_fp3 \<and>
   2 \<le> length (getPeaks ex_fp3) \<and>
   ex_deblend (dispatch_args default_config ex_psf ex_mi 2 ex_fp3) = Inr ex_result \<and>
   length (peaks ex_result) \<le> length (getPeaks ex_fp3) \<and> peaks ex_result \<noteq> [] \<and>
   skip (peaks ex_result ! 1) \<and>
   completed (process_source ex_deblend default_config ex_exposure ex_psf ex_mi 2 2 ex_catalogue) \<and>
   deblendSkippedKey (srcs (state_of
      (process_source ex_deblend default_config ex_exposure ex_psf ex_mi 2 2 ex_catalogue)) ! 2) =
     Some False"
proof -
  have h1: "2 < length (srcs ex_catalogue)" by (simp add: ex_catalogue_def)
  have h2: "getFootprint (srcs ex_catalogue ! 2) = Some ex_fp3"
    by (simp add: ex_catalogue_def new_record_def)
  have h3: "2 \<le> length (getPeaks ex_fp3)" by (simp add: ex_fp3_def)
  have h4: "ex_deblend (dispatch_args default_config ex_psf ex_mi 2 ex_fp3) = Inr ex_result"
    by (simp add: ex_deblend_def dispatch_args_def call_args_def ex_fp3_def)
  have h5: "length (peaks ex_result) \<le> length (getPeaks ex_fp3)"
    by (simp add: ex_result_def ex_fp3_def)
  have h6: "peaks ex_result \<noteq> []" by (simp add: ex_result_def)
  have l: "(skip (last (peaks ex_result)) \<or> getFluxPortion (last (peaks ex_result)) = None) = False"
    by (simp add: ex_result_def)
  have s: "skip (peaks ex_result ! 1)" by (simp add: ex_result_def)
  note t = deblendSkipped_is_last_outcome [where ext = ex_deblend and exposure = ex_exposure,
      OF h1 h2 h3 h4 h5 h6, unfolded l]
  from t h1 h2 h3 h4 h5 h6 s show ?thesis by simp
qed

subsection \<open>Point-source fields of children\<close>

lemma process_source_children:
  "\<forall>k. length (srcs st) \<le> k \<and>
        k < length (srcs (state_of (process_source ext cfg exposure p mi sigma1 i st))) \<longrightarrow>
        psf_fields_ok (srcs (state_of (process_source ext cfg exposure p mi sigma1 i st)) ! k)"
proof (cases "i < length (srcs st)")
  case False
  then show ?thesis by (auto simp add: process_source_def)
next
  case i: True
  show ?thesis
  proof (cases "getFootprint (srcs st ! i)")
    case None
    with i show ?thesis by (auto simp add: process_source_def)
  next
    case (Some fp)
    show ?thesis
    proof (cases "2 \<le> length (getPeaks fp)")
      case False
      with i Some show ?thesis by (auto simp add: process_source_small)
    next
      case True
      note cand = process_source_candidate [OF i Some True, of ext cfg exposure p mi sigma1]
      show ?thesis
      proof (cases "ext (dispatch_args cfg p mi sigma1 fp)")
        case (Inl e)
        then show ?thesis by (auto simp add: cand Let_def)
      next
        case (Inr res)
        let ?st1 = "set_src i (\<lambda>s. s\<lparr>deblendFailedKey := Some False\<rparr>)
                      (before_dispatch cfg p mi sigma1 i fp st)"
        let ?m = "map_peaks i (getPeaks fp) 0 (peaks res) (?st1, [], 0)"
        have "\<forall>k. length (srcs st) \<le> k \<and> k < length (srcs (mapped_state ?m))
                \<longrightarrow> psf_fields_ok (srcs (mapped_state ?m) ! k)"
          by (rule map_peaks_children) (use i in auto)
        moreover have "length (srcs st) \<le> length (srcs (mapped_state ?m))"
          using map_peaks_frame [of i ?st1 "getPeaks fp" 0 "peaks res" "[]" 0] i by simp
        ultimately show ?thesis
          using i by (cases ?m) (auto simp add: cand Let_def Inr nth_list_update)
      qed
    qed
  qed
qed

text \<open>
  C7. Every row appended by an iteration of the loop has \<open>psfCenter\<close> written iff its
  \<open>deblendedAsPsf\<close> flag was written true, and likewise \<open>psfFlux\<close>; a child that is not a
  point source has both fields unwritten.
\<close>

theorem psf_fields_iff_deblendedAsPsf:
  assumes "length (srcs st) \<le> k"
    and "k < length (srcs (state_of (process_source ext cfg exposure p mi sigma1 i st)))"
  shows
    "(psfCenterKey (srcs (state_of (process_source ext cfg exposure p mi sigma1 i st)) ! k) \<noteq> None) =
       (psfKey (srcs (state_of (process_source ext cfg exposure p mi sigma1 i st)) ! k) = Some True) \<and>
     (psfFluxKey (srcs (state_of (process_source ext cfg exposure p mi sigma1 i st)) ! k) \<noteq> None) =
       (psfKey (srcs (state_of (process_source ext cfg exposure p mi sigma1 i st)) ! k) = Some True)"
  using process_source_children [of st ext cfg exposure p mi sigma1 i] assms
  unfolding psf_fields_ok_def by blast

theorem psf_fields_iff_deblendedAsPsf_witness:
  "length (srcs ex_catalogue) \<le> 3 \<and>
   4 < length (srcs (state_of
      (process_source ex_deblend default_config ex_exposure ex_psf ex_mi 2 2 ex_catalogue))) \<and>
   psfKey (srcs (state_of
      (process_source ex_deblend default_config ex_exposure ex_psf ex_mi 2 2 ex_catalogue)) ! 3) =
     Some True \<and>
   psfCenterKey (srcs (state_of
      (process_source ex_deblend default_config ex_exposure ex_psf ex_mi 2 2 ex_catalogue)) ! 3) \<noteq>
     None \<and>
   psfFluxKey (srcs (state_of
      (process_source ex_deblend default_config ex_exposure ex_psf ex_mi 2 2 ex_catalogue)) ! 3) \<noteq>
     None \<and>
   psfKey (srcs (state_of
      (process_source ex_deblend default_config ex_exposure ex_psf ex_mi 2 2 ex_catalogue)) ! 4) =
     Some False \<and>
   psfCenterKey (srcs (state_of
      (process_source ex_deblend default_config ex_exposure ex_psf ex_mi 2 2 ex_catalogue)) ! 4) =
     None \<and>
   psfFluxKey (srcs (state_of
      (process_source ex_deblend default_config ex_exposure ex_psf ex_mi 2 2 ex_catalogue)) ! 4) =
     None"
proof -
  let ?r = "process_source ex_deblend default_config ex_exposure ex_psf ex_mi 2 2 ex_catalogue"
  have h1: "length (srcs ex_catalogue) \<le> 3" by (simp add: ex_catalogue_def)
  have h1': "length (srcs ex_catalogue) \<le> 4" by (simp add: ex_catalogue_def)
  have h2: "4 < length (srcs (state_of ?r))" by (simp add: ex_defs step_defs)
  then have h2': "3 < length (srcs (state_of ?r))" by simp
  have p3: "psfKey (srcs (state_of ?r) ! 3) = Some True" by (simp add: ex_defs step_defs)
  have p4: "psfKey (srcs (state_of ?r) ! 4) = Some False" by (simp add: ex_defs step_defs)
  note t3 = psf_fields_iff_deblendedAsPsf [OF h1 h2']
  note t4 = psf_fields_iff_deblendedAsPsf [OF h1' h2]
  from t3 p3 have c3: "psfCenterKey (srcs (state_of ?r) ! 3) \<noteq> None"
    and f3: "psfFluxKey (srcs (state_of ?r) ! 3) \<noteq> None" by blast+
  have ne: "Some False \<noteq> Some True" by simp
  from t4 have c4: "psfCenterKey (srcs (state_of ?r) ! 4) = None"
    and f4: "psfFluxKey (srcs (state_of ?r) ! 4) = None"
    unfolding p4 using ne by blast+
  from h1 h2 p3 p4 c3 f3 c4 f4 show ?thesis by blast
qed

subsection \<open>The PSF width\<close>

lemma process_source_widths:
  assumes "i < length (srcs st)" and "getFootprint (srcs st ! i) = Some fp"
    and "2 \<le> length (getPeaks fp)"
  shows "dispatched_widths (events (state_of (process_source ext cfg exposure p mi sigma1 i st))) =
     dispatched_widths (events st) @ [getPsfFwhm p (getBBox fp)]"
proof -
  from process_source_trace [OF assms, of ext cfg exposure p mi sigma1]
  obtain tail where
    ev: "events (state_of (process_source ext cfg exposure p mi sigma1 i st)) =
       events st @ [PreHook i (getPsfFwhm p (getBBox fp)),
                    Dispatch (dispatch_args cfg p mi sigma1 fp)] @ tail"
    and tl: "case ext (dispatch_args cfg p mi sigma1 fp) of
        Inl e \<Rightarrow> tail = [Warn (getId (srcs st ! i)) e]
      | Inr res \<Rightarrow>
          (if completed (process_source ext cfg exposure p mi sigma1 i st)
           then \<exists>kids. tail = [PostHook i (length (srcs st)) kids] else tail = [])"
    by blast
  from tl have "dispatched_widths tail = []"
    by (auto split: sum.splits if_splits)
  then show ?thesis
    unfolding ev by (simp add: dispatched_widths_append dispatch_args_def call_args_def)
qed

text \<open>
  C8, as the code has it. For every candidate the width passed to the external routine
  is 2.35 times the determinant radius of \<^verbatim>\<open>psf.computeShape()\<close>, called without a
  position; the bounding box handed to \<^verbatim>\<open>_getPsfFwhm\<close> does not enter, so the width is
  the same for every bounding box.
\<close>

theorem psf_width_from_default_shape:
  assumes "i < length (srcs st)" and "getFootprint (srcs st ! i) = Some fp"
    and "2 \<le> length (getPeaks fp)"
  shows "dispatched_widths (events (state_of (process_source ext cfg exposure p mi sigma1 i st))) =
       dispatched_widths (events st) @ [getDeterminantRadius (computeShape p None) * 2.35] \<and>
     getPsfFwhm p (getBBox fp) = getPsfFwhm p bbox"
  using process_source_widths [OF assms, of ext cfg exposure p mi sigma1]
  by (simp add: getPsfFwhm_def)

theorem psf_width_from_default_shape_witness:
  "2 < length (srcs ex_catalogue) \<and> getFootprint (srcs ex_catalogue ! 2) = Some ex_fp3 \<and>
   2 \<le> length (getPeaks ex_fp3) \<and>
   dispatched_widths (events (state_of
      (process_source ex_deblend default_config ex_exposure ex_psf ex_mi 2 2 ex_catalogue))) =
     [47 / 10] \<and>
   getPsfFwhm ex_psf (getBBox ex_fp3) = getPsfFwhm ex_psf (getBBox ex_fp2)"
proof -
  have h1: "2 < length (srcs ex_catalogue)" by (simp add: ex_catalogue_def)
  have h2: "getFootprint (srcs ex_catalogue ! 2) = Some ex_fp3"
    by (simp add: ex_catalogue_def new_record_def)
  have h3: "2 \<le> length (getPeaks ex_fp3)" by (simp add: ex_fp3_def)
  have e: "dispatched_widths (events ex_catalogue) = []" by (simp add: ex_catalogue_def)
  have r: "getDeterminantRadius (computeShape ex_psf None) = 2"
    by (simp add: ex_psf_def)
  from psf_width_from_default_shape [OF h1 h2 h3, of ex_deblend default_config ex_exposure
      ex_psf ex_mi 2 "getBBox ex_fp2"] h1 h2 h3
  show ?thesis by (simp add: e r)
qed

text \<open>
  C8 as stated fails: with a PSF whose shape at its default position has radius 2 and
  radius 3 everywhere else, the width passed for the first detection of the example
  catalogue is 4.7, and not 7.05, which is 2.35 times the radius at its bounding box.
\<close>

theorem psf_width_not_queried_at_bbox:
  "dispatched_widths (events (state_of
      (process_source ex_deblend default_config ex_exposure ex_psf ex_mi 2 0 ex_catalogue))) =
     [47 / 10] \<and>
   spec_psf_width ex_psf (getBBox ex_fp2) = 141 / 20 \<and>
   getFootprint (srcs ex_catalogue ! 0) = Some ex_fp2"
  by (simp add: ex_defs step_defs spec_psf_width_def)

subsection \<open>Hooks\<close>

lemma process_source_hooks:
  assumes "i < length (srcs st)" and "getFootprint (srcs st ! i) = Some fp"
    and "2 \<le> length (getPeaks fp)"
  shows "pre_hooked (events (state_of (process_source ext cfg exposure p mi sigma1 i st))) =
       pre_hooked (events st) @ [i]"
    and "post_hooked (events (state_of (process_source ext cfg exposure p mi sigma1 i st))) =
       post_hooked (events st) @
       (case ext (dispatch_args cfg p mi sigma1 fp) of
          Inl e \<Rightarrow> []
        | Inr res \<Rightarrow>
            if completed (process_source ext cfg exposure p mi sigma1 i st) then [i] else [])"
proof -
  from process_source_trace [OF assms, of ext cfg exposure p mi sigma1]
  obtain tail where
    ev: "events (state_of (process_source ext cfg exposure p mi sigma1 i st)) =
       events st @ [PreHook i (getPsfFwhm p (getBBox fp)),
                    Dispatch (dispatch_args cfg p mi sigma1 fp)] @ tail"
    and tl: "case ext (dispatch_args cfg p mi sigma1 fp) of
        Inl e \<Rightarrow> tail = [Warn (getId (srcs st ! i)) e]
      | Inr res \<Rightarrow>
          (if completed (process_source ext cfg exposure p mi sigma1 i st)
           then \<exists>kids. tail = [PostHook i (length (srcs st)) kids] else tail = [])"
    by blast
  from tl have pre: "pre_hooked tail = []"
    by (auto split: sum.splits if_splits)
  from tl have post: "post_hooked tail =
       (case ext (dispatch_args cfg p mi sigma1 fp) of
          Inl e \<Rightarrow> []
        | Inr res \<Rightarrow>
            if completed (process_source ext cfg exposure p mi sigma1 i st) then [i] else [])"
    by (auto split: sum.splits if_splits)
  show "pre_hooked (events (state_of (process_source ext cfg exposure p mi sigma1 i st))) =
       pre_hooked (events st) @ [i]"
    unfolding ev by (simp add: pre_hooked_append pre)
  show "post_hooked (events (state_of (process_source ext cfg exposure p mi sigma1 i st))) =
       post_hooked (events st) @
       (case ext (dispatch_args cfg p mi sigma1 fp) of
          Inl e \<Rightarrow> []
        | Inr res \<Rightarrow>
            if completed (process_source ext cfg exposure p mi sigma1 i st) then [i] else [])"
    unfolding ev by (simp only: post_hooked_append post post_hooked.simps append_Nil append_Nil2)
qed

text \<open>
  C9. For every candidate the pre-hook is called once, whatever the external routine
  does. When the routine raises, the iteration ends normally without a call of the
  post-hook; when it returns, the post-hook is called once, provided the result mapping
  itself ends normally.
\<close>

theorem hooks_around_dispatch:
  assumes "i < length (srcs st)" and "getFootprint (srcs st ! i) = Some fp"
    and "2 \<le> length (getPeaks fp)"
  shows "pre_hooked (events (state_of (process_source ext cfg exposure p mi sigma1 i st))) =
       pre_hooked (events st) @ [i] \<and>
     (case ext (dispatch_args cfg p mi sigma1 fp) of
        Inl e \<Rightarrow>
          completed (process_source ext cfg exposure p mi sigma1 i st) \<and>
          post_hooked (events (state_of (process_source ext cfg exposure p mi sigma1 i st))) =
            post_hooked (events st)
      | Inr res \<Rightarrow>
          post_hooked (events (state_of (process_source ext cfg exposure p mi sigma1 i st))) =
            post_hooked (events st) @
            (if completed (process_source ext cfg exposure p mi sigma1 i st) then [i] else []))"
proof (cases "ext (dispatch_args cfg p mi sigma1 fp)")
  case (Inl e)
  then show ?thesis
    using process_source_hooks [OF assms, of ext cfg exposure p mi sigma1]
    by (simp add: process_source_raise [where ext = ext, OF assms Inl])
next
  case (Inr res)
  then show ?thesis
    using process_source_hooks [OF assms, of ext cfg exposure p mi sigma1] by simp
qed

theorem hooks_around_dispatch_witness:
  "0 < length (srcs ex_catalogue) \<and> getFootprint (srcs ex_catalogue ! 0) = Some ex_fp2 \<and>
   2 \<le> length (getPeaks ex_fp2) \<and>
   ex_deblend (dispatch_args default_config ex_psf ex_mi 2 ex_fp2) = Inl ''no template'' \<and>
   pre_hooked (events (state_of
      (process_source ex_deblend default_config ex_exposure ex_psf ex_mi 2 0 ex_catalogue))) = [0] \<and>
   completed (process_source ex_deblend default_config ex_exposure ex_psf ex_mi 2 0 ex_catalogue) \<and>
   post_hooked (events (state_of
      (process_source ex_deblend default_config ex_exposure ex_psf ex_mi 2 0 ex_catalogue))) = [] \<and>
   2 < length (srcs ex_catalogue) \<and> getFootprint (srcs ex_catalogue ! 2) = Some ex_fp3 \<and>
   2 \<le> length (getPeaks ex_fp3) \<and>
   ex_deblend (dispatch_args default_config ex_psf ex_mi 2 ex_fp3) = Inr ex_result \<and>
   completed (process_source ex_deblend default_config ex_exposure ex_psf ex_mi 2 2 ex_catalogue) \<and>
   pre_hooked (events (state_of
      (process_source ex_deblend default_config ex_exposure ex_psf ex_mi 2 2 ex_catalogue))) = [2] \<and>
   post_hooked (events (state_of
      (process_source ex_deblend default_config ex_exposure ex_psf ex_mi 2 2 ex_catalogue))) = [2]"
proof -
  have a1: "0 < length (srcs ex_catalogue)" by (simp add: ex_catalogue_def)
  have a2: "getFootprint (srcs ex_catalogue ! 0) = Some ex_fp2"
    by (simp add: ex_catalogue_def new_record_def)
  have a3: "2 \<le> length (getPeaks ex_fp2)" by (simp add: ex_fp2_def)
  have a4: "ex_deblend (dispatch_args default_config ex_psf ex_mi 2 ex_fp2) = Inl ''no template''"
    by (simp add: ex_deblend_def dispatch_args_def call_args_def ex_fp2_def)
  have b1: "2 < length (srcs ex_catalogue)" by (simp add: ex_catalogue_def)
  have b2: "getFootprint (srcs ex_catalogue ! 2) = Some ex_fp3"
    by (simp add: ex_catalogue_def new_record_def)
  have b3: "2 \<le> length (getPeaks ex_fp3)" by (simp add: ex_fp3_def)
  have b4: "ex_deblend (dispatch_args default_config ex_psf ex_mi 2 ex_fp3) = Inr ex_result"
    by (simp add: ex_deblend_def dispatch_args_def call_args_def ex_fp3_def)
  have b5: "completed
      (process_source ex_deblend default_config ex_exposure ex_psf ex_mi 2 2 ex_catalogue)"
    by (simp add: ex_defs step_defs)
  have e: "events ex_catalogue = []" by (simp add: ex_catalogue_def)
  note ta = hooks_around_dispatch [OF a1 a2 a3, of ex_deblend default_config ex_exposure ex_psf
      ex_mi 2, unfolded a4 sum.case e]
  note tb = hooks_around_dispatch [OF b1 b2 b3, of ex_deblend default_config ex_exposure ex_psf
      ex_mi 2, unfolded b4 sum.case e]
  from ta tb a1 a2 a3 a4 b1 b2 b3 b4 b5 show ?thesis by simp
qed

subsection \<open>Writes of a failed candidate\<close>

text \<open>
  C10. For a candidate on which the external routine raises, the iteration ends normally
  and leaves the catalogue as it was except for the candidate's own row, where
  \<open>tooManyPeaks\<close> and \<open>deblendFailed = true\<close> are written: no row is appended, no
  identifier is consumed, and \<open>deblendSkipped\<close> and \<open>nchild\<close> keep what they held.
\<close>

theorem failed_candidate_writes:
  assumes "i < length (srcs st)" and "getFootprint (srcs st ! i) = Some fp"
    and "2 \<le> length (getPeaks fp)"
    and "ext (dispatch_args cfg p mi sigma1 fp) = Inl e"
  shows "completed (process_source ext cfg exposure p mi sigma1 i st) \<and>
     srcs (state_of (process_source ext cfg exposure p mi sigma1 i st)) =
       (srcs st)[i := (srcs st ! i)\<lparr>
          tooManyPeaksKey := Some (maxNumberOfPeaks cfg < int (length (getPeaks fp))),
          deblendFailedKey := Some True\<rparr>] \<and>
     length (srcs (state_of (process_source ext cfg exposure p mi sigma1 i st))) =
       length (srcs st) \<and>
     idFactory (state_of (process_source ext cfg exposure p mi sigma1 i st)) = idFactory st \<and>
     deblendSkippedKey (srcs (state_of (process_source ext cfg exposure p mi sigma1 i st)) ! i) =
       deblendSkippedKey (srcs st ! i) \<and>
     nChildKey (srcs (state_of (process_source ext cfg exposure p mi sigma1 i st)) ! i) =
       nChildKey (srcs st ! i)"
  using assms(1) by (simp add: process_source_raise [where ext = ext, OF assms])

theorem failed_candidate_writes_witness:
  "0 < length (srcs ex_catalogue) \<and> getFootprint (srcs ex_catalogue ! 0) = Some ex_fp2 \<and>
   2 \<le> length (getPeaks ex_fp2) \<and>
   ex_deblend (dispatch_args default_config ex_psf ex_mi 2 ex_fp2) = Inl ''no template'' \<and>
   completed (process_source ex_deblend default_config ex_exposure ex_psf ex_mi 2 0 ex_catalogue) \<and>
   length (srcs (state_of
      (process_source ex_deblend default_config ex_exposure ex_psf ex_mi 2 0 ex_catalogue))) = 3 \<and>
   deblendSkippedKey (srcs (state_of
      (process_source ex_deblend default_config ex_exposure ex_psf ex_mi 2 0 ex_catalogue)) ! 0) =
     None \<and>
   nChildKey (srcs (state_of
      (process_source ex_deblend default_config ex_exposure ex_psf ex_mi 2 0 ex_catalogue)) ! 0) =
     None"
proof -
  have a1: "0 < length (srcs ex_catalogue)" by (simp add: ex_catalogue_def)
  have a2: "getFootprint (srcs ex_catalogue ! 0) = Some ex_fp2"
    by (simp add: ex_catalogue_def new_record_def)
  have a3: "2 \<le> length (getPeaks ex_fp2)" by (simp add: ex_fp2_def)
  have a4: "ex_deblend (dispatch_args default_config ex_psf ex_mi 2 ex_fp2) = Inl ''no template''"
    by (simp add: ex_deblend_def dispatch_args_def call_args_def ex_fp2_def)
  have n: "length (srcs ex_catalogue) = 3" by (simp add: ex_catalogue_def)
  have s: "deblendSkippedKey (srcs ex_catalogue ! 0) = None"
    by (simp add: ex_catalogue_def new_record_def)
  have c: "nChildKey (srcs ex_catalogue ! 0) = None"
    by (simp add: ex_catalogue_def new_record_def)
  from failed_candidate_writes [where ext = ex_deblend and exposure = ex_exposure,
      OF a1 a2 a3 a4] a1 a2 a3 a4
  show ?thesis by (simp add: n s c)
qed

subsection \<open>The loop over the catalogue\<close>

lemma deblend_loop_induct [consumes 1, case_names stop abort step]:
  assumes run: "deblend_loop it ext cfg exposure p mi sigma1 n i st = Some r"
    and stop: "\<And>i st. \<not> i < (case it of Snapshot \<Rightarrow> n | Live \<Rightarrow> length (srcs st)) \<Longrightarrow> P i st (Inr st)"
    and abort: "\<And>i st err. i < (case it of Snapshot \<Rightarrow> n | Live \<Rightarrow> length (srcs st)) \<Longrightarrow>
       process_source ext cfg exposure p mi sigma1 i st = Inl err \<Longrightarrow> P i st (Inl err)"
    and step: "\<And>i st st' r. i < (case it of Snapshot \<Rightarrow> n | Live \<Rightarrow> length (srcs st)) \<Longrightarrow>
       process_source ext cfg exposure p mi sigma1 i st = Inr st' \<Longrightarrow>
       deblend_loop it ext cfg exposure p mi sigma1 n (Suc i) st' = Some r \<Longrightarrow>
       P (Suc i) st' r \<Longrightarrow> P i st r"
  shows "P i st r"
proof -
  let ?Q = "\<lambda>it' ext' cfg' exposure' p' mi' sigma1' n' i st r.
     it' = it \<and> ext' = ext \<and> cfg' = cfg \<and> exposure' = exposure \<and> p' = p \<and> mi' = mi \<and>
     sigma1' = sigma1 \<and> n' = n \<longrightarrow>
     deblend_loop it ext cfg exposure p mi sigma1 n i st = Some r \<and> P i st r"
  have "?Q it ext cfg exposure p mi sigma1 n i st r"
  proof (rule deblend_loop.raw_induct [where P = ?Q, OF _ run], intro impI, elim conjE)
    fix f it' ext' cfg' exposure' p' mi' sigma1' n' i st r
    assume IH: "\<And>it'' ext'' cfg'' exposure'' p'' mi'' sigma1'' n'' i st y.
        f it'' ext'' cfg'' exposure'' p'' mi'' sigma1'' n'' i st = Some y \<Longrightarrow>
        ?Q it'' ext'' cfg'' exposure'' p'' mi'' sigma1'' n'' i st y"
      and eq: "(if i < (case it' of Snapshot \<Rightarrow> n' | Live \<Rightarrow> length (srcs st))
           then case process_source ext' cfg' exposure' p' mi' sigma1' i st of
                  Inl err \<Rightarrow> Some (Inl err)
                | Inr st' \<Rightarrow> f it' ext' cfg' exposure' p' mi' sigma1' n' (Suc i) st'
           else Some (Inr st)) = Some r"
      and same: "it' = it" "ext' = ext" "cfg' = cfg" "exposure' = exposure" "p' = p" "mi' = mi"
        "sigma1' = sigma1" "n' = n"
    note eq = eq [unfolded same]
    show "deblend_loop it ext cfg exposure p mi sigma1 n i st = Some r \<and> P i st r"
    proof (cases "i < (case it of Snapshot \<Rightarrow> n | Live \<Rightarrow> length (srcs st))")
      case False
      with eq have "r = Inr st" by simp
      with False stop [OF False] show ?thesis
        by (subst deblend_loop.simps) simp
    next
      case True
      show ?thesis
      proof (cases "process_source ext cfg exposure p mi sigma1 i st")
        case (Inl err)
        with eq True have "r = Inl err" by simp
        with True Inl abort [OF True Inl] show ?thesis
          by (subst deblend_loop.simps) simp
      next
        case (Inr st')
        with eq True have "f it ext cfg exposure p mi sigma1 n (Suc i) st' = Some r" by simp
        from IH [OF this]
        have rec: "deblend_loop it ext cfg exposure p mi sigma1 n (Suc i) st' = Some r"
          and P: "P (Suc i) st' r" by simp_all
        from step [OF True Inr rec P] True Inr rec show ?thesis
          by (subst deblend_loop.simps) simp
      qed
    qed
  qed
  then show ?thesis by simp
qed

lemma process_source_frame:
  "length (srcs st) \<le> length (srcs (state_of (process_source ext cfg exposure p mi sigma1 i st))) \<and>
   (\<forall>k < length (srcs st). k \<noteq> i \<longrightarrow>
      srcs (state_of (process_source ext cfg exposure p mi sigma1 i st)) ! k = srcs st ! k) \<and>
   (\<forall>k < length (srcs st).
      getFootprint (srcs (state_of (process_source ext cfg exposure p mi sigma1 i st)) ! k) =
      getFootprint (srcs st ! k))"
proof (cases "i < length (srcs st)")
  case False
  then show ?thesis by (simp add: process_source_def)
next
  case i: True
  show ?thesis
  proof (cases "getFootprint (srcs st ! i)")
    case None
    with i show ?thesis by (simp add: process_source_def)
  next
    case (Some fp)
    show ?thesis
    proof (cases "2 \<le> length (getPeaks fp)")
      case False
      with i Some show ?thesis by (simp add: process_source_small)
    next
      case True
      note cand = process_source_candidate [OF i Some True, of ext cfg exposure p mi sigma1]
      show ?thesis
      proof (cases "ext (dispatch_args cfg p mi sigma1 fp)")
        case (Inl e)
        then show ?thesis using i by (simp add: cand Let_def nth_list_update)
      next
        case (Inr res)
        let ?st1 = "set_src i (\<lambda>s. s\<lparr>deblendFailedKey := Some False\<rparr>)
                      (before_dispatch cfg p mi sigma1 i fp st)"
        let ?m = "map_peaks i (getPeaks fp) 0 (peaks res) (?st1, [], 0)"
        have i1: "i < length (srcs ?st1)" using i by simp
        note fr = map_peaks_frame [OF i1, of "getPeaks fp" 0 "peaks res" "[]" 0]
        from fr have len: "length (srcs st) \<le> length (srcs (mapped_state ?m))" by simp
        from fr have oth: "\<forall>k < length (srcs st). k \<noteq> i \<longrightarrow>
            srcs (mapped_state ?m) ! k = srcs st ! k" by (simp add: nth_list_update)
        from fr have "getFootprint ((srcs (mapped_state ?m) ! i)\<lparr>deblendSkippedKey := None\<rparr>) =
            getFootprint ((srcs ?st1 ! i)\<lparr>deblendSkippedKey := None\<rparr>)" by simp
        then have own: "getFootprint (srcs (mapped_state ?m) ! i) = getFootprint (srcs st ! i)"
          using i by simp
        have fps: "\<forall>k < length (srcs st).
            getFootprint (srcs (mapped_state ?m) ! k) = getFootprint (srcs st ! k)"
          using oth own by metis
        show ?thesis
        proof (cases ?m)
          case (Inl err)
          then obtain e s where m: "?m = Inl (e, s)" by (cases err) auto
          from len oth fps show ?thesis
            by (simp add: cand Let_def Inr m)
        next
          case inr: (Inr t)
          then obtain s kids n where m: "?m = Inr (s, kids, n)" by (cases t) auto
          from len oth fps i show ?thesis
            by (simp add: cand Let_def Inr m nth_list_update)
        qed
      qed
    qed
  qed
qed

lemma deblend_loop_small_row:
  assumes "deblend_loop it ext cfg exposure p mi sigma1 n j st = Some r"
    and "k < length (srcs st)" and "getFootprint (srcs st ! k) = Some fp"
    and "length (getPeaks fp) < 2"
  shows "srcs (state_of r) ! k = srcs st ! k"
  using assms
proof (induction rule: deblend_loop_induct)
  case (stop j st)
  then show ?case by simp
next
  case (abort j st err)
  have "j \<noteq> k"
    using abort.hyps(2) abort.prems by (auto simp add: process_source_small)
  with process_source_frame [of st ext cfg exposure p mi sigma1 j] abort.prems(1) abort.hyps(2)
  show ?case by simp
next
  case (step j st st' r)
  note fr = process_source_frame [of st ext cfg exposure p mi sigma1 j, unfolded step.hyps(2)]
  have row: "srcs st' ! k = srcs st ! k"
  proof (cases "j = k")
    case True
    with step.hyps(2) step.prems show ?thesis by (simp add: process_source_small)
  next
    case False
    with fr step.prems(1) show ?thesis by simp
  qed
  from fr step.prems(1) have "k < length (srcs st')" by simp
  from step.IH [OF this] row step.prems show ?case by simp
qed

lemma run_small_row:
  assumes "run it ext cfg exposure st p = Some r"
    and "k < length (srcs st)" and "getFootprint (srcs st ! k) = Some fp"
    and "length (getPeaks fp) < 2"
  shows "srcs (state_of r) ! k = srcs st ! k"
proof (cases "varianceMedian (getMaskedImage exposure) < 0")
  case True
  with assms(1) show ?thesis by (auto simp add: run_def deblend_def Let_def)
next
  case False
  let ?st0 = "st\<lparr>nparents := 0\<rparr>"
  let ?l = "deblend_loop it ext cfg exposure p (getMaskedImage exposure)
      (sqrt (varianceMedian (getMaskedImage exposure))) (length (srcs st)) 0 ?st0"
  from assms(1) False obtain r0 where l: "?l = Some r0"
    by (auto simp add: run_def deblend_def Let_def split: option.splits)
  from assms(2-4) have "k < length (srcs ?st0)" "getFootprint (srcs ?st0 ! k) = Some fp" by simp_all
  from deblend_loop_small_row [OF l this assms(4)]
  have r0: "srcs (state_of r0) ! k = srcs st ! k" by simp
  from assms(1) False l have "srcs (state_of r) = srcs (state_of r0)"
    by (cases r0) (auto simp add: run_def deblend_def Let_def)
  with r0 show ?thesis by simp
qed

lemmas run_defs = run_def deblend_def deblend_loop.simps

subsection \<open>Detections with fewer than two peaks\<close>

text \<open>
  C6. For a detection with fewer than two peaks the iteration of the loop returns the
  state as it was: no call of a hook or of the external routine is recorded, no field is
  written, no row is appended. Over a whole run, whatever the other detections are, its
  row is the same at the end as at the start.
\<close>

theorem small_detection_untouched:
  assumes "i < length (srcs st)" and "getFootprint (srcs st ! i) = Some fp"
    and "length (getPeaks fp) < 2"
  shows "process_source ext cfg exposure p mi sigma1 i st = Inr st \<and>
     (run it ext cfg exposure st p = Some r \<longrightarrow> srcs (state_of r) ! i = srcs st ! i)"
  using process_source_small [OF assms] run_small_row [OF _ assms] by blast

theorem small_detection_untouched_witness:
  "1 < length (srcs ex_catalogue) \<and> getFootprint (srcs ex_catalogue ! 1) = Some ex_fp1 \<and>
   length (getPeaks ex_fp1) < 2 \<and>
   process_source ex_deblend default_config ex_exposure ex_psf ex_mi 2 1 ex_catalogue =
     Inr ex_catalogue \<and>
   run Live ex_deblend default_config ex_exposure ex_catalogue ex_psf \<noteq> None \<and>
   srcs (state_of (the (run Live ex_deblend default_config ex_exposure ex_catalogue ex_psf))) ! 1 =
     srcs ex_catalogue ! 1"
proof -
  have h1: "1 < length (srcs ex_catalogue)" by (simp add: ex_catalogue_def)
  have h2: "getFootprint (srcs ex_catalogue ! 1) = Some ex_fp1"
    by (simp add: ex_catalogue_def new_record_def)
  have h3: "length (getPeaks ex_fp1) < 2" by (simp add: ex_fp1_def)
  have h4: "run Live ex_deblend default_config ex_exposure ex_catalogue ex_psf \<noteq> None"
    by (simp add: ex_defs run_defs step_defs)
  then have h5: "run Live ex_deblend default_config ex_exposure ex_catalogue ex_psf =
      Some (the (run Live ex_deblend default_config ex_exposure ex_catalogue ex_psf))"
    by simp
  from small_detection_untouched [OF h1 h2 h3, of ex_deblend default_config ex_exposure ex_psf
      ex_mi 2 Live "the (run Live ex_deblend default_config ex_exposure ex_catalogue ex_psf)"]
    h1 h2 h3 h4 h5
  show ?thesis by blast
qed

subsection \<open>A single pass over the rows present at the call\<close>

lemma deblend_loop_snapshot:
  "deblend_loop Snapshot ext cfg exposure p mi sigma1 n i st =
     Some (process_rows ext cfg exposure p mi sigma1 [i..<n] st)"
proof (induction "n - i" arbitrary: i st)
  case 0
  then show ?case by (subst deblend_loop.simps) simp
next
  case (Suc d)
  then have i: "i < n" and d: "d = n - Suc i" by simp_all
  from i have upt: "[i..<n] = i # [Suc i..<n]" by (rule upt_conv_Cons)
  show ?case
    by (subst deblend_loop.simps) (simp add: i upt Suc.hyps(1) [OF d] split: sum.split)
qed

lemma run_snapshot:
  assumes "0 \<le> varianceMedian (getMaskedImage exposure)"
  shows "run Snapshot ext cfg exposure st p = Some (single_pass ext cfg exposure st p)"
  using assms
  by (simp add: run_def deblend_def single_pass_def deblend_loop_snapshot Let_def
      split: sum.split)

lemma process_source_pre_hooked:
  "pre_hooked (events (state_of (process_source ext cfg exposure p mi sigma1 i st))) =
     pre_hooked (events st) @ (if is_candidate st i then [i] else [])"
proof (cases "i < length (srcs st)")
  case False
  then show ?thesis by (simp add: process_source_def is_candidate_def)
next
  case i: True
  show ?thesis
  proof (cases "getFootprint (srcs st ! i)")
    case None
    with i show ?thesis by (simp add: process_source_def is_candidate_def)
  next
    case (Some fp)
    show ?thesis
    proof (cases "2 \<le> length (getPeaks fp)")
      case False
      with i Some show ?thesis by (simp add: process_source_small is_candidate_def)
    next
      case True
      with i Some process_source_hooks(1) [OF i Some True, of ext cfg exposure p mi sigma1]
      show ?thesis by (simp add: is_candidate_def)
    qed
  qed
qed

lemma process_rows_pre_hooked:
  assumes "length (srcs st0) \<le> length (srcs s)"
    and "\<forall>k < length (srcs st0). getFootprint (srcs s ! k) = getFootprint (srcs st0 ! k)"
    and "\<forall>k \<in> set ps. k < length (srcs st0)"
  shows "\<exists>qs rest. ps = qs @ rest \<and>
     pre_hooked (events (state_of (process_rows ext cfg exposure p mi sigma1 ps s))) =
       pre_hooked (events s) @ filter (is_candidate st0) qs \<and>
     (completed (process_rows ext cfg exposure p mi sigma1 ps s) \<longrightarrow> rest = [])"
  using assms
proof (induction ps arbitrary: s)
  case Nil
  then show ?case by simp
next
  case (Cons i ps)
  from Cons.prems have i: "i < length (srcs st0)" and i_s: "i < length (srcs s)" by simp_all
  from Cons.prems(2) i have "getFootprint (srcs s ! i) = getFootprint (srcs st0 ! i)" by simp
  with i i_s have cand: "is_candidate s i = is_candidate st0 i" by (simp add: is_candidate_def)
  note pre = process_source_pre_hooked [of ext cfg exposure p mi sigma1 i s, unfolded cand]
  show ?case
  proof (cases "process_source ext cfg exposure p mi sigma1 i s")
    case (Inl err)
    with pre have "i # ps = [i] @ ps \<and>
       pre_hooked (events (state_of (process_rows ext cfg exposure p mi sigma1 (i # ps) s))) =
         pre_hooked (events s) @ filter (is_candidate st0) [i] \<and>
       (completed (process_rows ext cfg exposure p mi sigma1 (i # ps) s) \<longrightarrow> ps = [])"
      by simp
    then show ?thesis by blast
  next
    case (Inr s')
    note fr = process_source_frame [of s ext cfg exposure p mi sigma1 i, unfolded Inr state_of_simps]
    from fr Cons.prems(1) have a1: "length (srcs st0) \<le> length (srcs s')" by simp
    from fr Cons.prems(1,2) have a2:
      "\<forall>k < length (srcs st0). getFootprint (srcs s' ! k) = getFootprint (srcs st0 ! k)" by simp
    from Cons.prems(3) have a3: "\<forall>k \<in> set ps. k < length (srcs st0)" by simp
    from Cons.IH [OF a1 a2 a3] obtain qs rest where
      ps: "ps = qs @ rest"
      and ev: "pre_hooked (events (state_of (process_rows ext cfg exposure p mi sigma1 ps s'))) =
         pre_hooked (events s') @ filter (is_candidate st0) qs"
      and fin: "completed (process_rows ext cfg exposure p mi sigma1 ps s') \<longrightarrow> rest = []"
      by blast
    from pre Inr have "pre_hooked (events s') =
        pre_hooked (events s) @ (if is_candidate st0 i then [i] else [])" by simp
    with ps ev fin Inr have "i # ps = (i # qs) @ rest \<and>
       pre_hooked (events (state_of (process_rows ext cfg exposure p mi sigma1 (i # ps) s))) =
         pre_hooked (events s) @ filter (is_candidate st0) (i # qs) \<and>
       (completed (process_rows ext cfg exposure p mi sigma1 (i # ps) s) \<longrightarrow> rest = [])"
      by simp
    then show ?thesis by blast
  qed
qed

lemma single_pass_pre_hooked:
  "\<exists>qs rest. [0..<length (srcs st)] = qs @ rest \<and>
     pre_hooked (events (state_of (single_pass ext cfg exposure st p))) =
       pre_hooked (events st) @ filter (is_candidate st) qs \<and>
     (completed (single_pass ext cfg exposure st p) \<longrightarrow> rest = [])"
proof -
  let ?st0 = "st\<lparr>nparents := 0\<rparr>"
  let ?mi = "getMaskedImage exposure"
  let ?rows = "process_rows ext cfg exposure p ?mi (sqrt (varianceMedian ?mi))
      [0..<length (srcs st)] ?st0"
  have c: "is_candidate st = is_candidate ?st0" by (rule ext) (simp add: is_candidate_def)
  have "\<exists>qs rest. [0..<length (srcs st)] = qs @ rest \<and>
     pre_hooked (events (state_of ?rows)) = pre_hooked (events ?st0) @ filter (is_candidate st) qs \<and>
     (completed ?rows \<longrightarrow> rest = [])"
    by (rule process_rows_pre_hooked) simp_all
  moreover have "pre_hooked (events (state_of (single_pass ext cfg exposure st p))) =
      pre_hooked (events (state_of ?rows))"
    by (cases ?rows) (auto simp add: single_pass_def Let_def pre_hooked_append)
  moreover have "completed (single_pass ext cfg exposure st p) = completed ?rows"
    by (cases ?rows) (auto simp add: single_pass_def Let_def)
  ultimately show ?thesis by simp
qed

lemma process_source_completes:
  assumes "i < length (srcs s)" and "getFootprint (srcs s ! i) \<noteq> None"
    and "\<forall>args res. ext args = Inr res \<longrightarrow> length (peaks res) \<le> length (getPeaks (arg_fp args))"
  shows "completed (process_source ext cfg exposure p mi sigma1 i s)"
proof -
  from assms(2) obtain fp where fp: "getFootprint (srcs s ! i) = Some fp" by auto
  show ?thesis
  proof (cases "2 \<le> length (getPeaks fp)")
    case False
    with assms(1) fp show ?thesis by (simp add: process_source_small)
  next
    case True
    show ?thesis
    proof (cases "ext (dispatch_args cfg p mi sigma1 fp)")
      case (Inl e)
      show ?thesis
        by (simp add: process_source_raise [where ext = ext, OF assms(1) fp True Inl])
    next
      case (Inr res)
      with assms(3) have "length (peaks res) \<le> length (getPeaks (arg_fp (dispatch_args cfg p mi sigma1 fp)))"
        by blast
      then have al: "length (peaks res) \<le> length (getPeaks fp)"
        by (simp add: dispatch_args_def call_args_def)
      from process_source_return [where ext = ext and exposure = exposure,
          OF assms(1) fp True Inr al]
      show ?thesis by auto
    qed
  qed
qed

lemma process_rows_completes:
  assumes "\<forall>k \<in> set ps. k < length (srcs s) \<and> getFootprint (srcs s ! k) \<noteq> None"
    and "\<forall>args res. ext args = Inr res \<longrightarrow> length (peaks res) \<le> length (getPeaks (arg_fp args))"
  shows "completed (process_rows ext cfg exposure p mi sigma1 ps s)"
  using assms(1)
proof (induction ps arbitrary: s)
  case Nil
  then show ?case by simp
next
  case (Cons i ps)
  from Cons.prems have i: "i < length (srcs s)" "getFootprint (srcs s ! i) \<noteq> None" by simp_all
  from process_source_completes [OF i assms(2), of cfg exposure p mi sigma1]
  obtain s' where b: "process_source ext cfg exposure p mi sigma1 i s = Inr s'"
    by (cases "process_source ext cfg exposure p mi sigma1 i s") simp_all
  note fr = process_source_frame [of s ext cfg exposure p mi sigma1 i, unfolded b state_of_simps]
  have "\<forall>k \<in> set ps. k < length (srcs s') \<and> getFootprint (srcs s' ! k) \<noteq> None"
  proof
    fix k assume "k \<in> set ps"
    with Cons.prems have k: "k < length (srcs s)" "getFootprint (srcs s ! k) \<noteq> None" by simp_all
    with fr show "k < length (srcs s') \<and> getFootprint (srcs s' ! k) \<noteq> None" by simp
  qed
  from Cons.IH [OF this] b show ?case by simp
qed

lemma single_pass_completes:
  assumes "\<forall>k < length (srcs st). getFootprint (srcs st ! k) \<noteq> None"
    and "\<forall>args res. ext args = Inr res \<longrightarrow> length (peaks res) \<le> length (getPeaks (arg_fp args))"
  shows "completed (single_pass ext cfg exposure st p)"
proof -
  let ?mi = "getMaskedImage exposure"
  let ?rows = "process_rows ext cfg exposure p ?mi (sqrt (varianceMedian ?mi))
      [0..<length (srcs st)] (st\<lparr>nparents := 0\<rparr>)"
  have "completed ?rows"
    by (rule process_rows_completes [OF _ assms(2)]) (use assms(1) in simp)
  then show ?thesis
    by (cases ?rows) (simp_all add: single_pass_def Let_def)
qed

subsection \<open>An iterator that follows the growing catalogue\<close>

lemma small_row_fill_child:
  assumes "length (getPeaks heavy) < 2"
  shows "small_row (fill_child pid heavy pk (new_record ident))"
  using assms by (simp add: small_row_def fill_child_def new_record_def Let_def split: prod.split)

lemma map_peaks_small_rows:
  assumes "i < m" and "m \<le> length (srcs st)"
    and "\<forall>k. m \<le> k \<and> k < length (srcs st) \<longrightarrow> small_row (srcs st ! k)"
    and "\<forall>pk h. pk \<in> set ps \<and> getFluxPortion pk = Some h \<longrightarrow> length (getPeaks h) < 2"
  shows "\<forall>k. m \<le> k \<and> k < length (srcs (mapped_state (map_peaks i pks j ps (st, kids, n))))
           \<longrightarrow> small_row (srcs (mapped_state (map_peaks i pks j ps (st, kids, n))) ! k)"
  using assms(2-4)
proof (induction ps arbitrary: st kids n j)
  case Nil
  then show ?case by simp
next
  case (Cons pk rest)
  from Cons.prems(3)
  have rest: "\<forall>pk h. pk \<in> set rest \<and> getFluxPortion pk = Some h \<longrightarrow> length (getPeaks h) < 2"
    by auto
  from assms(1) Cons.prems(1) have i: "i < length (srcs st)" by simp
  show ?case
  proof (cases "kept pk")
    case True
    then obtain h where h: "getFluxPortion pk = Some h" by (auto simp add: kept_def)
    with Cons.prems(3) have small: "length (getPeaks h) < 2" by auto
    let ?st1 = "append_child i (the (getFluxPortion pk)) pk st"
    have l: "m \<le> length (srcs ?st1)" using Cons.prems(1) by (simp add: append_child_sel)
    have rows: "\<forall>k. m \<le> k \<and> k < length (srcs ?st1) \<longrightarrow> small_row (srcs ?st1 ! k)"
      using Cons.prems(1,2) assms(1) i small h
      by (auto simp add: srcs_append_child nth_append nth_list_update small_row_fill_child)
    from Cons.IH [where kids = "kids @ [length (srcs st)]" and n = "n + 1" and j = "Suc j",
        OF l rows rest] True
    show ?thesis by (simp only: map_peaks_Cons if_True)
  next
    case False
    show ?thesis
    proof (cases "length pks \<le> j")
      case True
      with False Cons.prems(2) show ?thesis
        by (simp only: map_peaks_Cons if_True if_False mapped_state_simps)
    next
      case no: False
      let ?st1 = "set_src i (\<lambda>s. s\<lparr>deblendSkippedKey := Some True\<rparr>) st"
      have l: "m \<le> length (srcs ?st1)" using Cons.prems(1) by simp
      have rows: "\<forall>k. m \<le> k \<and> k < length (srcs ?st1) \<longrightarrow> small_row (srcs ?st1 ! k)"
        using Cons.prems(2) assms(1) by (auto simp add: nth_list_update)
      from Cons.IH [where kids = kids and n = n and j = "Suc j", OF l rows rest] False no
      show ?thesis by (simp only: map_peaks_Cons if_False)
    qed
  qed
qed

lemma process_source_small_rows:
  assumes "i < m" and "m \<le> length (srcs s)"
    and "\<forall>k. m \<le> k \<and> k < length (srcs s) \<longrightarrow> small_row (srcs s ! k)"
    and "\<forall>args res pk h. ext args = Inr res \<and> pk \<in> set (peaks res) \<and>
           getFluxPortion pk = Some h \<longrightarrow> length (getPeaks h) < 2"
  shows "\<forall>k. m \<le> k \<and>
           k < length (srcs (state_of (process_source ext cfg exposure p mi sigma1 i s))) \<longrightarrow>
           small_row (srcs (state_of (process_source ext cfg exposure p mi sigma1 i s)) ! k)"
proof -
  from assms(1,2) have i: "i < length (srcs s)" by simp
  show ?thesis
  proof (cases "getFootprint (srcs s ! i)")
    case None
    with i assms(3) show ?thesis by (simp add: process_source_def)
  next
    case (Some fp)
    show ?thesis
    proof (cases "2 \<le> length (getPeaks fp)")
      case False
      with i Some assms(3) show ?thesis by (simp add: process_source_small)
    next
      case True
      note cand = process_source_candidate [OF i Some True, of ext cfg exposure p mi sigma1]
      show ?thesis
      proof (cases "ext (dispatch_args cfg p mi sigma1 fp)")
        case (Inl e)
        then show ?thesis using assms(1,3) by (auto simp add: cand Let_def nth_list_update)
      next
        case (Inr res)
        let ?st1 = "set_src i (\<lambda>s. s\<lparr>deblendFailedKey := Some False\<rparr>)
                      (before_dispatch cfg p mi sigma1 i fp s)"
        let ?m = "map_peaks i (getPeaks fp) 0 (peaks res) (?st1, [], 0)"
        from assms(4) Inr
        have ps: "\<forall>pk h. pk \<in> set (peaks res) \<and> getFluxPortion pk = Some h \<longrightarrow>
            length (getPeaks h) < 2" by blast
        have l: "m \<le> length (srcs ?st1)" using assms(2) by simp
        have rows: "\<forall>k. m \<le> k \<and> k < length (srcs ?st1) \<longrightarrow> small_row (srcs ?st1 ! k)"
          using assms(1,3) by (auto simp add: nth_list_update)
        note mp = map_peaks_small_rows [OF assms(1) l rows ps, of "getPeaks fp" 0 "[]" 0]
        show ?thesis
        proof (cases ?m)
          case (Inl err)
          then obtain e t where m: "?m = Inl (e, t)" by (cases err) auto
          with mp show ?thesis by (simp add: cand Let_def Inr)
        next
          case inr: (Inr x)
          then obtain t kd n where m: "?m = Inr (t, kd, n)" by (cases x) auto
          with mp assms(1) show ?thesis by (auto simp add: cand Let_def Inr nth_list_update)
        qed
      qed
    qed
  qed
qed

lemma deblend_loop_live_tail:
  assumes "m \<le> i" and "\<forall>k. m \<le> k \<and> k < length (srcs s) \<longrightarrow> small_row (srcs s ! k)"
  shows "deblend_loop Live ext cfg exposure p mi sigma1 n i s = Some (Inr s)"
  using assms(1)
proof (induction "length (srcs s) - i" arbitrary: i)
  case 0
  then show ?case by (subst deblend_loop.simps) simp
next
  case (Suc d)
  then have i: "i < length (srcs s)" and d: "d = length (srcs s) - Suc i" by simp_all
  from assms(2) i Suc.prems have "small_row (srcs s ! i)" by simp
  then obtain fp where "getFootprint (srcs s ! i) = Some fp" "length (getPeaks fp) < 2"
    by (auto simp add: small_row_def split: option.splits)
  with i have b: "process_source ext cfg exposure p mi sigma1 i s = Inr s"
    by (simp add: process_source_small)
  from Suc.prems have "m \<le> Suc i" by simp
  from Suc.hyps(1) [OF d this] i b show ?case
    by (subst deblend_loop.simps) simp
qed

lemma deblend_loop_live:
  assumes "i \<le> m" and "m \<le> length (srcs s)"
    and "\<forall>k. m \<le> k \<and> k < length (srcs s) \<longrightarrow> small_row (srcs s ! k)"
    and "\<forall>args res pk h. ext args = Inr res \<and> pk \<in> set (peaks res) \<and>
           getFluxPortion pk = Some h \<longrightarrow> length (getPeaks h) < 2"
  shows "deblend_loop Live ext cfg exposure p mi sigma1 n i s =
     Some (process_rows ext cfg exposure p mi sigma1 [i..<m] s)"
  using assms(1-3)
proof (induction "m - i" arbitrary: i s)
  case 0
  then have "i = m" by simp
  with deblend_loop_live_tail [OF _ "0.prems"(3), of m ext cfg exposure p mi sigma1 n]
  show ?case by simp
next
  case (Suc d)
  then have i: "i < m" and d: "d = m - Suc i" by simp_all
  from i Suc.prems(2) have il: "i < length (srcs s)" by simp
  from i have upt: "[i..<m] = i # [Suc i..<m]" by (rule upt_conv_Cons)
  show ?case
  proof (cases "process_source ext cfg exposure p mi sigma1 i s")
    case (Inl err)
    with il show ?thesis by (subst deblend_loop.simps) (simp add: upt)
  next
    case (Inr s')
    note fr = process_source_frame [of s ext cfg exposure p mi sigma1 i, unfolded Inr state_of_simps]
    note sm = process_source_small_rows [OF i Suc.prems(2,3) assms(4),
        of cfg exposure p mi sigma1, unfolded Inr state_of_simps]
    from fr Suc.prems(2) have l: "m \<le> length (srcs s')" by simp
    from i have "Suc i \<le> m" by simp
    from Suc.hyps(1) [OF d this l sm] Inr il show ?thesis
      by (subst deblend_loop.simps) (simp add: upt)
  qed
qed

lemma run_live:
  assumes "0 \<le> varianceMedian (getMaskedImage exposure)"
    and "\<forall>args res pk h. ext args = Inr res \<and> pk \<in> set (peaks res) \<and>
           getFluxPortion pk = Some h \<longrightarrow> length (getPeaks h) < 2"
  shows "run Live ext cfg exposure st p = Some (single_pass ext cfg exposure st p)"
proof -
  let ?st0 = "st\<lparr>nparents := 0\<rparr>"
  have "deblend_loop Live ext cfg exposure p (getMaskedImage exposure)
      (sqrt (varianceMedian (getMaskedImage exposure))) (length (srcs st)) 0 ?st0 =
     Some (process_rows ext cfg exposure p (getMaskedImage exposure)
      (sqrt (varianceMedian (getMaskedImage exposure))) [0..<length (srcs st)] ?st0)"
    by (rule deblend_loop_live [OF _ _ _ assms(2)]) auto
  with assms(1) show ?thesis
    by (simp add: run_def deblend_def single_pass_def Let_def split: sum.split)
qed



text \<open>
  The condition on the iterator or on the flux portions cannot be dropped in this model:
  with an iterator that follows the growing catalogue and a flux portion of two peaks,
  the child appended at position 3 is itself handed to the pre-hook and to the external
  routine.
\<close>

lemma live_iterator_two_peak_child:
  "length (srcs ex_catalogue) = 3 \<and>
   run Live ex_deblend default_config ex_exposure ex_catalogue ex_psf \<noteq> None \<and>
   pre_hooked (events (state_of
      (the (run Live ex_deblend default_config ex_exposure ex_catalogue ex_psf)))) = [0, 2, 3] \<and>
   getParent (srcs (state_of
      (the (run Live ex_deblend default_config ex_exposure ex_catalogue ex_psf))) ! 3) = 3 \<and>
   deblendFailedKey (srcs (state_of
      (the (run Live ex_deblend default_config ex_exposure ex_catalogue ex_psf))) ! 3) = Some True"
  by (simp add: ex_defs run_defs step_defs)

subsection \<open>Independence of the rows\<close>

lemma agree_except_iff:
  "agree_except i s s' \<longleftrightarrow>
     length (srcs s) = length (srcs s') \<and> idFactory s = idFactory s' \<and>
     (\<forall>k < length (srcs s). k \<noteq> i \<longrightarrow> srcs s ! k = srcs s' ! k)"
proof
  assume a: "agree_except i s s'"
  then have eq: "(srcs s)[i := new_record 0] = (srcs s')[i := new_record 0]"
    and idf: "idFactory s = idFactory s'"
    by (simp_all add: agree_except_def others_def)
  from eq have len: "length (srcs s) = length (srcs s')"
    by (metis length_list_update)
  have "srcs s ! k = srcs s' ! k" if "k < length (srcs s)" "k \<noteq> i" for k
  proof -
    from eq have "(srcs s)[i := new_record 0] ! k = (srcs s')[i := new_record 0] ! k" by simp
    with that show ?thesis by simp
  qed
  with len idf show "length (srcs s) = length (srcs s') \<and> idFactory s = idFactory s' \<and>
     (\<forall>k < length (srcs s). k \<noteq> i \<longrightarrow> srcs s ! k = srcs s' ! k)" by simp
next
  assume a: "length (srcs s) = length (srcs s') \<and> idFactory s = idFactory s' \<and>
     (\<forall>k < length (srcs s). k \<noteq> i \<longrightarrow> srcs s ! k = srcs s' ! k)"
  have "(srcs s)[i := new_record 0] = (srcs s')[i := new_record 0]"
  proof (rule nth_equalityI)
    show "length ((srcs s)[i := new_record 0]) = length ((srcs s')[i := new_record 0])"
      using a by simp
  next
    fix m assume "m < length ((srcs s)[i := new_record 0])"
    then have m: "m < length (srcs s)" by simp
    show "(srcs s)[i := new_record 0] ! m = (srcs s')[i := new_record 0] ! m"
    proof (cases "m = i")
      case True
      with m a show ?thesis by simp
    next
      case False
      with m a show ?thesis by simp
    qed
  qed
  with a show "agree_except i s s'" by (simp add: agree_except_def others_def)
qed

lemma agree_exceptI:
  assumes "length (srcs s) = length (srcs s')" and "idFactory s = idFactory s'"
    and "\<And>m. m < length (srcs s) \<Longrightarrow> m \<noteq> i \<Longrightarrow> srcs s ! m = srcs s' ! m"
  shows "agree_except i s s'"
  using assms by (simp add: agree_except_iff)

lemma agree_exceptD:
  assumes "agree_except i s s'"
  shows "length (srcs s) = length (srcs s')" and "idFactory s = idFactory s'"
    and "m < length (srcs s) \<Longrightarrow> m \<noteq> i \<Longrightarrow> srcs s ! m = srcs s' ! m"
  using assms by (simp_all add: agree_except_iff)

lemma agree_except_set_src:
  assumes "agree_except i s s'" and "k \<noteq> i"
  shows "agree_except i (set_src k f s) (set_src k f s')"
proof (rule agree_exceptI)
  show "length (srcs (set_src k f s)) = length (srcs (set_src k f s'))"
    using agree_exceptD(1) [OF assms(1)] by simp
  show "idFactory (set_src k f s) = idFactory (set_src k f s')"
    using agree_exceptD(2) [OF assms(1)] by simp
  fix m assume m: "m < length (srcs (set_src k f s))" and ne: "m \<noteq> i"
  then have m': "m < length (srcs s)" by simp
  then have m'': "m < length (srcs s')" using agree_exceptD(1) [OF assms(1)] by simp
  from agree_exceptD(3) [OF assms(1) m' ne] have row: "srcs s ! m = srcs s' ! m" .
  show "srcs (set_src k f s) ! m = srcs (set_src k f s') ! m"
  proof (cases "m = k")
    case True
    with m' m'' row show ?thesis by simp
  next
    case False
    with row show ?thesis by simp
  qed
qed

lemma agree_except_emit:
  assumes "agree_except i s s'"
  shows "agree_except i (emit e s) (emit e' s')"
  using assms by (simp add: agree_except_iff)

lemma agree_except_nparents:
  assumes "agree_except i s s'"
  shows "agree_except i (s\<lparr>nparents := a\<rparr>) (s'\<lparr>nparents := b\<rparr>)"
  using assms by (simp add: agree_except_iff)

lemma agree_except_addNew:
  assumes "agree_except i s s'" and "i < length (srcs s)"
  shows "agree_except i (fst (addNew s)) (fst (addNew s'))"
proof (rule agree_exceptI)
  note len = agree_exceptD(1) [OF assms(1)] and idf = agree_exceptD(2) [OF assms(1)]
  show "length (srcs (fst (addNew s))) = length (srcs (fst (addNew s')))"
    using len by (simp add: addNew_def)
  show "idFactory (fst (addNew s)) = idFactory (fst (addNew s'))"
    using idf by (simp add: addNew_def)
  fix m assume m: "m < length (srcs (fst (addNew s)))" and ne: "m \<noteq> i"
  show "srcs (fst (addNew s)) ! m = srcs (fst (addNew s')) ! m"
  proof (cases "m < length (srcs s)")
    case True
    with agree_exceptD(3) [OF assms(1) True ne] len show ?thesis
      by (simp add: addNew_def nth_append)
  next
    case False
    with m have "m = length (srcs s)" by (simp add: addNew_def)
    with len idf show ?thesis by (simp add: addNew_def nth_append)
  qed
qed

lemma append_child_steps:
  "append_child k heavy pk s =
     set_src (length (srcs s))
       (fill_child (getId (srcs (fst (addNew (set_src k (\<lambda>s. s\<lparr>deblendSkippedKey := Some False\<rparr>) s))) ! k))
          heavy pk)
       (fst (addNew (set_src k (\<lambda>s. s\<lparr>deblendSkippedKey := Some False\<rparr>) s)))"
  by (simp add: append_child_def addNew_def Let_def)

lemma agree_except_append_child:
  assumes "agree_except i s s'" and "k \<noteq> i" and "k < length (srcs s)" and "i < length (srcs s)"
  shows "agree_except i (append_child k heavy pk s) (append_child k heavy pk s')"
proof -
  let ?f = "\<lambda>s. s\<lparr>deblendSkippedKey := Some False\<rparr>"
  note len = agree_exceptD(1) [OF assms(1)]
  have a1: "agree_except i (set_src k ?f s) (set_src k ?f s')"
    using assms(1,2) by (rule agree_except_set_src)
  have "i < length (srcs (set_src k ?f s))" using assms(4) by simp
  with a1 have a2: "agree_except i (fst (addNew (set_src k ?f s))) (fst (addNew (set_src k ?f s')))"
    by (rule agree_except_addNew)
  have k2: "k < length (srcs (fst (addNew (set_src k ?f s))))"
    using assms(3) by (simp add: addNew_def)
  from agree_exceptD(3) [OF a2 k2 assms(2)]
  have pid: "getId (srcs (fst (addNew (set_src k ?f s))) ! k) =
      getId (srcs (fst (addNew (set_src k ?f s'))) ! k)" by simp
  have ne: "length (srcs s) \<noteq> i" using assms(4) by simp
  from agree_except_set_src [OF a2 ne] show ?thesis
    unfolding append_child_steps pid len .
qed

lemma agree_except_before_dispatch:
  assumes "agree_except i s s'" and "k \<noteq> i"
  shows "agree_except i (before_dispatch cfg p mi sigma1 k fp s)
           (before_dispatch cfg p mi sigma1 k fp s')"
  unfolding before_dispatch_def
  by (intro agree_except_emit agree_except_set_src agree_except_nparents assms)

lemma map_peaks_agree:
  assumes "agree_except i s s'" and "k \<noteq> i" and "k < length (srcs s)"
    and "i < length (srcs s)"
  shows "case map_peaks k pks j ps (s, kids, n) of
           Inl (e, t) \<Rightarrow>
             (\<exists>t'. map_peaks k pks j ps (s', kids, n) = Inl (e, t') \<and> agree_except i t t')
         | Inr (t, kd, m) \<Rightarrow>
             (\<exists>t'. map_peaks k pks j ps (s', kids, n) = Inr (t', kd, m) \<and> agree_except i t t')"
  using assms
proof (induction ps arbitrary: s s' kids n j)
  case Nil
  then show ?case by simp
next
  case (Cons pk rest)
  from Cons.prems have len: "length (srcs s) = length (srcs s')" by (simp add: agree_except_iff)
  show ?case
  proof (cases "kept pk")
    case True
    let ?h = "the (getFluxPortion pk)"
    have a: "agree_except i (append_child k ?h pk s) (append_child k ?h pk s')"
      using Cons.prems by (rule agree_except_append_child)
    have l: "k < length (srcs (append_child k ?h pk s))"
      using Cons.prems(3) by (simp add: append_child_sel)
    have l2: "i < length (srcs (append_child k ?h pk s))"
      using Cons.prems(4) by (simp add: append_child_sel)
    from Cons.IH [OF a Cons.prems(2) l l2, of "Suc j" "kids @ [length (srcs s)]" "n + 1"] True len
    show ?thesis by (simp only: map_peaks_Cons if_True)
  next
    case False
    show ?thesis
    proof (cases "length pks \<le> j")
      case True
      with False Cons.prems(1) show ?thesis
        by (simp only: map_peaks_Cons if_True if_False) simp
    next
      case no: False
      let ?f = "\<lambda>s. s\<lparr>deblendSkippedKey := Some True\<rparr>"
      have a: "agree_except i (set_src k ?f s) (set_src k ?f s')"
        using Cons.prems(1,2) by (rule agree_except_set_src)
      have l: "k < length (srcs (set_src k ?f s))" using Cons.prems(3) by simp
      have l2: "i < length (srcs (set_src k ?f s))" using Cons.prems(4) by simp
      from Cons.IH [OF a Cons.prems(2) l l2, of "Suc j" kids n] False no
      show ?thesis by (simp only: map_peaks_Cons if_False)
    qed
  qed
qed

lemma process_source_agree:
  assumes "agree_except i s s'" and "k \<noteq> i" and "i < length (srcs s)"
  shows "case process_source ext cfg exposure p mi sigma1 k s of
           Inl (e, t) \<Rightarrow>
             (\<exists>t'. process_source ext cfg exposure p mi sigma1 k s' = Inl (e, t') \<and>
                   agree_except i t t')
         | Inr t \<Rightarrow>
             (\<exists>t'. process_source ext cfg exposure p mi sigma1 k s' = Inr t' \<and>
                   agree_except i t t')"
proof -
  from assms(1) have len: "length (srcs s) = length (srcs s')" by (simp add: agree_except_iff)
  show ?thesis
  proof (cases "k < length (srcs s)")
    case False
    with len assms(1) show ?thesis by (simp add: process_source_def)
  next
    case k: True
    with len have k': "k < length (srcs s')" by simp
    from assms k have row: "srcs s ! k = srcs s' ! k" by (simp add: agree_except_iff)
    show ?thesis
    proof (cases "getFootprint (srcs s ! k)")
      case None
      with k k' row assms(1) show ?thesis by (simp add: process_source_def)
    next
      case (Some fp)
      with row have Some': "getFootprint (srcs s' ! k) = Some fp" by simp
      show ?thesis
      proof (cases "2 \<le> length (getPeaks fp)")
        case False
        with k k' Some Some' assms(1) show ?thesis by (simp add: process_source_small)
      next
        case True
        note c = process_source_candidate [OF k Some True, of ext cfg exposure p mi sigma1]
        note c' = process_source_candidate [OF k' Some' True, of ext cfg exposure p mi sigma1]
        have bd: "agree_except i (before_dispatch cfg p mi sigma1 k fp s)
            (before_dispatch cfg p mi sigma1 k fp s')"
          using assms(1,2) by (rule agree_except_before_dispatch)
        show ?thesis
        proof (cases "ext (dispatch_args cfg p mi sigma1 fp)")
          case (Inl e)
          have "agree_except i
              (set_src k (\<lambda>s. s\<lparr>deblendFailedKey := Some True\<rparr>)
                 (emit (Warn (getId (srcs s ! k)) e) (before_dispatch cfg p mi sigma1 k fp s)))
              (set_src k (\<lambda>s. s\<lparr>deblendFailedKey := Some True\<rparr>)
                 (emit (Warn (getId (srcs s' ! k)) e) (before_dispatch cfg p mi sigma1 k fp s')))"
            by (intro agree_except_set_src agree_except_emit bd assms(2))
          then show ?thesis by (simp add: c c' Let_def Inl)
        next
          case (Inr res)
          let ?f = "\<lambda>s. s\<lparr>deblendFailedKey := Some False\<rparr>"
          let ?s1 = "set_src k ?f (before_dispatch cfg p mi sigma1 k fp s)"
          let ?s1' = "set_src k ?f (before_dispatch cfg p mi sigma1 k fp s')"
          have a: "agree_except i ?s1 ?s1'"
            by (intro agree_except_set_src bd assms(2))
          have l: "k < length (srcs ?s1)" using k by simp
          have l2: "i < length (srcs ?s1)" using assms(3) by simp
          note m = map_peaks_agree [OF a assms(2) l l2, of "getPeaks fp" 0 "peaks res" "[]" 0]
          show ?thesis
          proof (cases "map_peaks k (getPeaks fp) 0 (peaks res) (?s1, [], 0)")
            case (Inl err)
            then obtain e t where e: "map_peaks k (getPeaks fp) 0 (peaks res) (?s1, [], 0) =
                Inl (e, t)" by (cases err) auto
            with m obtain t' where
              "map_peaks k (getPeaks fp) 0 (peaks res) (?s1', [], 0) = Inl (e, t')"
              "agree_except i t t'" by auto
            with e show ?thesis by (simp add: c c' Let_def Inr)
          next
            case inr: (Inr x)
            then obtain t kd n where e: "map_peaks k (getPeaks fp) 0 (peaks res) (?s1, [], 0) =
                Inr (t, kd, n)" by (cases x) auto
            with m obtain t' where
              e': "map_peaks k (getPeaks fp) 0 (peaks res) (?s1', [], 0) = Inr (t', kd, n)"
              and a': "agree_except i t t'" by auto
            have "agree_except i
                (emit (PostHook k (length (srcs s)) kd)
                   (set_src k (\<lambda>s. s\<lparr>nChildKey := Some n\<rparr>) t))
                (emit (PostHook k (length (srcs s')) kd)
                   (set_src k (\<lambda>s. s\<lparr>nChildKey := Some n\<rparr>) t'))"
              by (intro agree_except_emit agree_except_set_src a' assms(2))
            with e e' show ?thesis by (simp add: c c' Let_def Inr)
          qed
        qed
      qed
    qed
  qed
qed

lemma deblend_loop_agree:
  assumes "deblend_loop it ext cfg exposure p mi sigma1 n j s = Some r"
    and "agree_except i s s'" and "i < j" and "i < length (srcs s)"
  shows "\<exists>r'. deblend_loop it ext cfg exposure p mi sigma1 n j s' = Some r' \<and>
     completed r' = completed r \<and> agree_except i (state_of r) (state_of r')"
  using assms
proof (induction arbitrary: s' rule: deblend_loop_induct)
  case (stop j s)
  from stop.prems have "length (srcs s') = length (srcs s)" by (simp add: agree_except_iff)
  then have bnd: "(case it of Snapshot \<Rightarrow> n | Live \<Rightarrow> length (srcs s')) =
      (case it of Snapshot \<Rightarrow> n | Live \<Rightarrow> length (srcs s))" by (cases it) simp_all
  from stop.hyps have "deblend_loop it ext cfg exposure p mi sigma1 n j s' = Some (Inr s')"
    by (subst deblend_loop.simps) (simp add: bnd)
  with stop.prems show ?case by simp
next
  case (abort j s err)
  from abort.prems have "length (srcs s') = length (srcs s)" and ne: "j \<noteq> i"
    by (simp_all add: agree_except_iff)
  then have bnd: "(case it of Snapshot \<Rightarrow> n | Live \<Rightarrow> length (srcs s')) =
      (case it of Snapshot \<Rightarrow> n | Live \<Rightarrow> length (srcs s))" by (cases it) simp_all
  obtain e t where err: "err = (e, t)" by (cases err)
  from process_source_agree [OF abort.prems(1) ne abort.prems(3), of ext cfg exposure p mi sigma1]
    abort.hyps(2) err
  obtain t' where b': "process_source ext cfg exposure p mi sigma1 j s' = Inl (e, t')"
    and a: "agree_except i t t'" by auto
  from abort.hyps(1) b'
  have "deblend_loop it ext cfg exposure p mi sigma1 n j s' = Some (Inl (e, t'))"
    by (subst deblend_loop.simps) (simp add: bnd)
  with a err show ?case by simp
next
  case (step j s st' r)
  from step.prems have "length (srcs s') = length (srcs s)" and ne: "j \<noteq> i"
    by (simp_all add: agree_except_iff)
  then have bnd: "(case it of Snapshot \<Rightarrow> n | Live \<Rightarrow> length (srcs s')) =
      (case it of Snapshot \<Rightarrow> n | Live \<Rightarrow> length (srcs s))" by (cases it) simp_all
  from process_source_agree [OF step.prems(1) ne step.prems(3), of ext cfg exposure p mi sigma1]
    step.hyps(2)
  obtain t' where b': "process_source ext cfg exposure p mi sigma1 j s' = Inr t'"
    and a: "agree_except i st' t'" by auto
  from step.prems(2) have lt: "i < Suc j" by simp
  from process_source_frame [of s ext cfg exposure p mi sigma1 j] step.hyps(2) step.prems(3)
  have il: "i < length (srcs st')" by simp
  from step.IH [OF a lt il] obtain r' where
    l: "deblend_loop it ext cfg exposure p mi sigma1 n (Suc j) t' = Some r'"
    and c: "completed r' = completed r" and ag: "agree_except i (state_of r) (state_of r')"
    by blast
  from step.hyps(1) b' l
  have "deblend_loop it ext cfg exposure p mi sigma1 n j s' = Some r'"
    by (subst deblend_loop.simps) (simp add: bnd)
  with c ag show ?case by simp
qed

text \<open>
  C2. Let the external routine raise on the candidate at position \<open>i\<close>, which the loop has
  reached. The exception is caught: the iteration ends normally with \<open>deblendFailed\<close>
  written true and \<open>nchild\<close> as it was, and the loop goes on with position \<open>i + 1\<close>. The
  rest of the run is not affected: whenever the run from position \<open>i + 1\<close> on the
  catalogue as it was before the failure returns, the run from position \<open>i\<close> returns as
  well, ends normally or with an exception alike, and leaves every row but row \<open>i\<close>, and
  the identifier counter, exactly the same.
\<close>

theorem failure_is_isolated:
  assumes "i < length (srcs st)" and "getFootprint (srcs st ! i) = Some fp"
    and "2 \<le> length (getPeaks fp)"
    and "ext (dispatch_args cfg p mi sigma1 fp) = Inl e"
    and "i < (case it of Snapshot \<Rightarrow> n | Live \<Rightarrow> length (srcs st))"
  shows "completed (process_source ext cfg exposure p mi sigma1 i st) \<and>
     deblendFailedKey (srcs (state_of (process_source ext cfg exposure p mi sigma1 i st)) ! i) =
       Some True \<and>
     nChildKey (srcs (state_of (process_source ext cfg exposure p mi sigma1 i st)) ! i) =
       nChildKey (srcs st ! i) \<and>
     deblend_loop it ext cfg exposure p mi sigma1 n i st =
       deblend_loop it ext cfg exposure p mi sigma1 n (Suc i)
         (state_of (process_source ext cfg exposure p mi sigma1 i st)) \<and>
     (deblend_loop it ext cfg exposure p mi sigma1 n (Suc i) st = Some r \<longrightarrow>
        (\<exists>r'. deblend_loop it ext cfg exposure p mi sigma1 n i st = Some r' \<and>
              completed r' = completed r \<and>
              others i (state_of r') = others i (state_of r)))"
proof -
  let ?b = "process_source ext cfg exposure p mi sigma1 i st"
  note raise = process_source_raise [where ext = ext and exposure = exposure, OF assms(1-4)]
  have c: "completed ?b" by (simp add: raise)
  have f: "deblendFailedKey (srcs (state_of ?b) ! i) = Some True"
    using assms(1) by (simp add: raise)
  have nc: "nChildKey (srcs (state_of ?b) ! i) = nChildKey (srcs st ! i)"
    using assms(1) by (simp add: raise)
  have b: "?b = Inr (state_of ?b)" by (simp add: raise)
  have next_row: "deblend_loop it ext cfg exposure p mi sigma1 n i st =
      deblend_loop it ext cfg exposure p mi sigma1 n (Suc i) (state_of ?b)"
    by (subst deblend_loop.simps, subst b) (simp add: assms(5))
  have ag: "agree_except i st (state_of ?b)"
    by (rule agree_exceptI) (simp_all add: raise)
  have rest: "\<exists>r'. deblend_loop it ext cfg exposure p mi sigma1 n i st = Some r' \<and>
        completed r' = completed r \<and> others i (state_of r') = others i (state_of r)"
    if run: "deblend_loop it ext cfg exposure p mi sigma1 n (Suc i) st = Some r"
  proof -
    from deblend_loop_agree [OF run ag _ assms(1)] obtain r' where
      "deblend_loop it ext cfg exposure p mi sigma1 n (Suc i) (state_of ?b) = Some r'"
      "completed r' = completed r" "agree_except i (state_of r) (state_of r')"
      by auto
    then show ?thesis
      unfolding next_row by (auto simp add: agree_except_def)
  qed
  from c f nc next_row rest show ?thesis by blast
qed

theorem failure_is_isolated_witness:
  "0 < length (srcs ex_catalogue) \<and> getFootprint (srcs ex_catalogue ! 0) = Some ex_fp2 \<and>
   2 \<le> length (getPeaks ex_fp2) \<and>
   ex_deblend (dispatch_args default_config ex_psf ex_mi 2 ex_fp2) = Inl ''no template'' \<and>
   0 < (case Snapshot of Snapshot \<Rightarrow> 3 | Live \<Rightarrow> length (srcs ex_catalogue)) \<and>
   deblend_loop Snapshot ex_deblend default_config ex_exposure ex_psf ex_mi 2 3 (Suc 0)
     ex_catalogue \<noteq> None \<and>
   deblend_loop Snapshot ex_deblend default_config ex_exposure ex_psf ex_mi 2 3 0
     ex_catalogue \<noteq> None \<and>
   completed (the (deblend_loop Snapshot ex_deblend default_config ex_exposure ex_psf ex_mi 2 3 0
     ex_catalogue)) \<and>
   deblendFailedKey (srcs (state_of
      (process_source ex_deblend default_config ex_exposure ex_psf ex_mi 2 0 ex_catalogue)) ! 0) =
     Some True \<and>
   nChildKey (srcs (state_of
      (process_source ex_deblend default_config ex_exposure ex_psf ex_mi 2 0 ex_catalogue)) ! 0) =
     None \<and>
   others 0 (state_of (the (deblend_loop Snapshot ex_deblend default_config ex_exposure ex_psf
      ex_mi 2 3 0 ex_catalogue))) =
     others 0 (state_of (the (deblend_loop Snapshot ex_deblend default_config ex_exposure ex_psf
      ex_mi 2 3 (Suc 0) ex_catalogue))) \<and>
   nChildKey (srcs (state_of (the (deblend_loop Snapshot ex_deblend default_config ex_exposure
      ex_psf ex_mi 2 3 0 ex_catalogue))) ! 2) = Some 2"
proof -
  let ?l0 = "deblend_loop Snapshot ex_deblend default_config ex_exposure ex_psf ex_mi 2 3 0
     ex_catalogue"
  let ?l1 = "deblend_loop Snapshot ex_deblend default_config ex_exposure ex_psf ex_mi 2 3 (Suc 0)
     ex_catalogue"
  have a1: "0 < length (srcs ex_catalogue)" by (simp add: ex_catalogue_def)
  have a2: "getFootprint (srcs ex_catalogue ! 0) = Some ex_fp2"
    by (simp add: ex_catalogue_def new_record_def)
  have a3: "2 \<le> length (getPeaks ex_fp2)" by (simp add: ex_fp2_def)
  have a4: "ex_deblend (dispatch_args default_config ex_psf ex_mi 2 ex_fp2) = Inl ''no template''"
    by (simp add: ex_deblend_def dispatch_args_def call_args_def ex_fp2_def)
  have a5: "0 < (case Snapshot of Snapshot \<Rightarrow> 3 | Live \<Rightarrow> length (srcs ex_catalogue))"
    by simp
  have l1: "?l1 \<noteq> None" by (simp add: deblend_loop_snapshot)
  then have l1': "?l1 = Some (the ?l1)" by simp
  have nc0: "nChildKey (srcs ex_catalogue ! 0) = None"
    by (simp add: ex_catalogue_def new_record_def)
  have nc2: "nChildKey (srcs (state_of (the ?l0)) ! 2) = Some 2"
    by (simp add: deblend_loop_snapshot upt_conv_Cons ex_defs step_defs)
  note t = failure_is_isolated [where ext = ex_deblend and exposure = ex_exposure and it = Snapshot
      and n = 3 and r = "the ?l1", OF a1 a2 a3 a4 a5]
  from t l1' obtain r' where r': "?l0 = Some r'" "completed r' = completed (the ?l1)"
    "others 0 (state_of r') = others 0 (state_of (the ?l1))" by blast
  have c1: "completed (the ?l1)"
    by (simp add: deblend_loop_snapshot upt_conv_Cons ex_defs step_defs)
  from r' c1 have l0: "?l0 \<noteq> None" "completed (the ?l0)"
    "others 0 (state_of (the ?l0)) = others 0 (state_of (the ?l1))" by simp_all
  from t have "deblendFailedKey (srcs (state_of
      (process_source ex_deblend default_config ex_exposure ex_psf ex_mi 2 0 ex_catalogue)) ! 0) =
     Some True"
    and "nChildKey (srcs (state_of
      (process_source ex_deblend default_config ex_exposure ex_psf ex_mi 2 0 ex_catalogue)) ! 0) =
     None"
    unfolding nc0 by blast+
  with a1 a2 a3 a4 a5 l1 l0 nc2 show ?thesis by blast
qed

end
